theory Spec2Isabelle
  imports Complex_Main
begin

section \<open>Raven transition: numeric helpers\<close>

text \<open>
  The component works on JavaScript numbers. They are modelled as \<^typ>\<open>real\<close>: the
  statements below are about the exact arithmetic the formulas denote, not about IEEE
  rounding. \<^verbatim>\<open>Math.pow(x, 3)\<close> is \<open>x ^ 3\<close>, \<^verbatim>\<open>Math.max\<close>/\<^verbatim>\<open>Math.min\<close> are
  \<open>max\<close>/\<open>min\<close>.
\<close>

definition easeInOutCubic :: "real \<Rightarrow> real" where
  "easeInOutCubic t = (if t < 0.5 then 4 * t * t * t else 1 - (- 2 * t + 2) ^ 3 / 2)"

definition easeOutQuart :: "real \<Rightarrow> real" where
  "easeOutQuart t = 1 - (1 - t) ^ 4"

definition clamp01 :: "real \<Rightarrow> real" where
  "clamp01 v = max 0 (min 1 v)"

section \<open>Silhouette geometry\<close>

definition RAVEN_POINTS :: "(real \<times> real) list" where
  "RAVEN_POINTS =
    [(- 0.28, 0.52), (- 0.1, 0.42), (0.06, 0.33), (0.15, 0.24), (0.28, 0.12),
     (0.38, 0.03), (0.5, - 0.08), (0.62, - 0.18), (0.75, - 0.23), (0.87, - 0.18),
     (1.0, - 0.08), (1.07, 0.02), (1.16, 0.08), (1.22, 0.18), (1.26, 0.28),
     (1.24, 0.38), (1.16, 0.48), (1.02, 0.58), (0.9, 0.66), (0.72, 0.72),
     (0.54, 0.7), (0.36, 0.68), (0.18, 0.66), (0.04, 0.62), (- 0.12, 0.58)]"

text \<open>A polygon vertex \<^verbatim>\<open>{ x, y }\<close>.\<close>

record point =
  pt_x :: real
  pt_y :: real

text \<open>The object returned by \<^verbatim>\<open>computeRavenGeometry\<close>.\<close>

record geometry =
  points :: "point list"
  offsetX :: real
  offsetY :: real
  shapeWidth :: real
  shapeHeight :: real
  eased :: real

definition computeRavenGeometry :: "real \<Rightarrow> real \<Rightarrow> real \<Rightarrow> geometry" where
  "computeRavenGeometry width height progress =
    (let eased = easeInOutCubic progress;
         base = min width height;
         shapeWidth = base * 1.32;
         shapeHeight = base * 0.74;
         travel = width + shapeWidth * 0.85;
         offsetX = eased * travel - shapeWidth * 0.75;
         offsetY = height * 0.52 - sin (eased * pi) * base * 0.08;
         skew = (eased - 0.5) * 0.55;
         lift = sin (eased * pi) * 0.18;
         points = map (\<lambda>(nx, ny).
             let centeredY = ny - 0.5;
                 scaledX = offsetX + shapeWidth * (nx + 0.15) + centeredY * shapeHeight * skew;
                 scaledY = offsetY + shapeHeight * centeredY * (1 - lift * 0.35)
             in \<lparr>pt_x = scaledX, pt_y = scaledY\<rparr>) RAVEN_POINTS
     in \<lparr>points = points, offsetX = offsetX, offsetY = offsetY,
         shapeWidth = shapeWidth, shapeHeight = shapeHeight, eased = eased\<rparr>)"

section \<open>Feather seeds\<close>

record feather_seed =
  fs_offsetY :: real
  sizeScale :: real
  delay :: real
  sway :: real

text \<open>
  The callback of \<^verbatim>\<open>Array.from({ length: 18 }, (_, idx) => ...)\<close> in
  \<^verbatim>\<open>useFeatherSeeds\<close>.
\<close>

definition featherSeedAt :: "nat \<Rightarrow> feather_seed" where
  "featherSeedAt idx =
    (let seed = (real idx + 1) * 37;
         base = (sin (seed * 1.3) + 1) / 2;
         spread = (cos (seed * 0.77) + 1) / 2
     in \<lparr>fs_offsetY = spread * 0.9 - 0.45,
         sizeScale = 0.55 + base * 0.65,
         delay = real (idx mod 6) * 0.05,
         sway = sin (seed * 0.61) * 0.9\<rparr>)"

text \<open>
  \<^verbatim>\<open>useMemo(factory, [])\<close> with an empty dependency list: the memo cell of the
  component instance is empty on the first render, filled by the factory, and read on
  every later render. The cell is passed in and returned.
\<close>

definition useMemo :: "(unit \<Rightarrow> 'a) \<Rightarrow> 'a option \<Rightarrow> 'a \<times> 'a option" where
  "useMemo factory cell =
    (case cell of
       None \<Rightarrow> (let v = factory () in (v, Some v))
     | Some v \<Rightarrow> (v, Some v))"

definition useFeatherSeeds :: "feather_seed list option \<Rightarrow> feather_seed list \<times> feather_seed list option" where
  "useFeatherSeeds cell = useMemo (\<lambda>_. map featherSeedAt [0..<18]) cell"

section \<open>Image slots\<close>

text \<open>
  An \<^verbatim>\<open>HTMLImageElement\<close> as far as the component reads it: its source and the
  natural size the decoder reported.
\<close>

record html_image =
  img_src :: string
  img_width :: real
  img_height :: real

type_synonym loaded_images = "html_image option list"

text \<open>
  JavaScript array access on \<^verbatim>\<open>(HTMLImageElement | null)[]\<close>: a read out of range is
  \<^verbatim>\<open>undefined\<close>, which every use in the component treats like \<^verbatim>\<open>null\<close>; a write out
  of range extends the array, the holes reading as \<^verbatim>\<open>undefined\<close>.
\<close>

definition arrayGet :: "'a option list \<Rightarrow> nat \<Rightarrow> 'a option" where
  "arrayGet xs i = (if i < length xs then xs ! i else None)"

definition arraySet :: "'a option list \<Rightarrow> nat \<Rightarrow> 'a option \<Rightarrow> 'a option list" where
  "arraySet xs i v =
    (if i < length xs then xs[i := v] else xs @ replicate (i - length xs) None @ [v])"

text \<open>
  The state of \<^verbatim>\<open>useLoadedImages\<close>: the \<^verbatim>\<open>images\<close> state cell, and the image
  objects whose \<^verbatim>\<open>onload\<close> handler is registered and has not fired, each with the slot
  index its handler closes over.
\<close>

record loader =
  images :: loaded_images
  pending :: "(nat \<times> string) list"

definition loader_init :: loader where
  "loader_init = \<lparr>images = [None, None], pending = []\<rparr>"

text \<open>The body of \<^verbatim>\<open>sources.forEach((src, index) => ...)\<close>.\<close>

definition startLoad :: "loader \<Rightarrow> string \<times> nat \<Rightarrow> loader" where
  "startLoad st p =
    (case p of (src, index) \<Rightarrow>
       st\<lparr>images := arraySet (images st) index None,
          pending := pending st @ [(index, src)]\<rparr>)"

text \<open>The effect of \<^verbatim>\<open>useLoadedImages\<close>, run on mount and whenever \<^verbatim>\<open>sources\<close> changes.\<close>

definition loadEffect :: "string list \<Rightarrow> loader \<Rightarrow> loader" where
  "loadEffect sources st = foldl startLoad st (zip sources [0..<length sources])"

text \<open>
  The \<^verbatim>\<open>image.onload\<close> handler of the image created for \<open>(index, src)\<close>; \<open>dims\<close> is the
  natural size the decoder found.
\<close>

definition imageOnload :: "nat \<times> string \<Rightarrow> real \<times> real \<Rightarrow> loader \<Rightarrow> loader" where
  "imageOnload h dims st =
    (case h of (index, src) \<Rightarrow>
       st\<lparr>images := arraySet (images st) index
                      (Some \<lparr>img_src = src, img_width = fst dims, img_height = snd dims\<rparr>),
          pending := remove1 h (pending st)\<rparr>)"

datatype loader_event =
  SourcesChanged "string list"
| ImageLoaded "nat \<times> string" "real \<times> real"

text \<open>
  One event of the loader. A load can only complete while its handler is outstanding;
  an event that cannot happen yields \<open>None\<close>.
\<close>

definition loader_step :: "loader_event \<Rightarrow> loader \<Rightarrow> loader option" where
  "loader_step ev st =
    (case ev of
       SourcesChanged sources \<Rightarrow> Some (loadEffect sources st)
     | ImageLoaded h dims \<Rightarrow>
         (if h \<in> set (pending st) then Some (imageOnload h dims st) else None))"

fun loader_run :: "loader_event list \<Rightarrow> loader \<Rightarrow> loader option" where
  "loader_run [] st = Some st"
| "loader_run (ev # evs) st =
    (case loader_step ev st of None \<Rightarrow> None | Some st' \<Rightarrow> loader_run evs st')"

section \<open>Drawing surface\<close>

text \<open>
  The 2D context is modelled by the sequence of calls it has received. A colour string
  \<^verbatim>\<open>"rgba(r, g, b, a)"\<close> is \<open>RGBA r g b a\<close>; a gradient is its line and its colour stops.
\<close>

datatype rgba = RGBA nat nat nat real

datatype gradient = LinearGradient real real real real "(real \<times> rgba) list"

datatype canvas_op =
    SetCanvasSize int int
  | ResetTransform
  | SetTransform real real real real real real
  | Scale real real
  | ClearRect real real real real
  | FillRect real real real real
  | DrawImage html_image real real real real
  | Save
  | Restore
  | BeginPath
  | MoveTo real real
  | LineTo real real
  | QuadraticCurveTo real real real real
  | ClosePath
  | Clip
  | Fill
  | Translate real real
  | Rotate real
  | SetFillStyle gradient
  | SetGlobalAlpha real
  | SetGlobalCompositeOperation string

text \<open>
  \<^verbatim>\<open>drawCoverImage\<close>. The two divisions are real divisions; the callers only reach it
  with a non-zero viewport height, and a decoded image has a non-zero natural size.
\<close>

definition drawCoverImage :: "html_image \<Rightarrow> real \<Rightarrow> real \<Rightarrow> canvas_op list" where
  "drawCoverImage img width height =
    (let imageRatio = img_width img / img_height img;
         canvasRatio = width / height;
         drawHeight = (if imageRatio > canvasRatio then height else width / imageRatio);
         drawWidth = (if imageRatio > canvasRatio then drawHeight * imageRatio else width);
         offsetX = (width - drawWidth) / 2;
         offsetY = (height - drawHeight) / 2
     in [DrawImage img offsetX offsetY drawWidth drawHeight])"

definition traceRavenPath :: "point list \<Rightarrow> canvas_op list" where
  "traceRavenPath pts =
    (case pts of
       [] \<Rightarrow> []
     | p0 # rest \<Rightarrow>
         [BeginPath, MoveTo (pt_x p0) (pt_y p0)]
         @ map (\<lambda>p. LineTo (pt_x p) (pt_y p)) rest
         @ [ClosePath])"

text \<open>The body of \<^verbatim>\<open>featherSeeds.forEach(seed => ...)\<close> in \<^verbatim>\<open>drawFeathers\<close>.\<close>

definition drawFeather :: "real \<Rightarrow> real \<Rightarrow> real \<Rightarrow> real \<Rightarrow> real \<Rightarrow> feather_seed \<Rightarrow> canvas_op list" where
  "drawFeather progress width height baseSize baseX seed =
    (let local = (progress - delay seed) / 0.75 in
     if local \<le> 0 then []
     else
       let clamped = clamp01 local;
           fade = 1 - clamped
       in if fade \<le> 0.01 then []
          else
            let size = baseSize * sizeScale seed;
                centerX = baseX - clamped * width * 0.32;
                centerY = height * 0.5 + fs_offsetY seed * height * 0.32
            in [Save,
                SetGlobalAlpha (fade * 0.5),
                Translate centerX centerY,
                Rotate (- 0.35 + sway seed * (1 - fade)),
                BeginPath,
                MoveTo 0 0,
                LineTo (- size * 0.5) (- size * 1.1),
                QuadraticCurveTo (size * 0.1) (- size * 0.9) (size * 0.22) (- size * 1.45),
                LineTo (size * 0.18) (- size * 0.35),
                ClosePath,
                SetFillStyle (LinearGradient 0 0 0 (- size * 1.4)
                                [(0, RGBA 0 0 0 0.62), (1, RGBA 42 44 60 0.15)]),
                Fill,
                Restore])"

definition drawFeathers :: "feather_seed list \<Rightarrow> real \<Rightarrow> real \<Rightarrow> real \<Rightarrow> geometry \<Rightarrow> canvas_op list" where
  "drawFeathers featherSeeds progress width height geo =
    (let eased = easeOutQuart progress;
         baseSize = min width height * 0.07;
         baseX = offsetX geo + shapeWidth geo * 0.28;
         sweepWidth = shapeWidth geo * 0.35;
         sweepX = offsetX geo + shapeWidth geo * 0.42;
         sweepGradient = LinearGradient (sweepX - sweepWidth) 0 (sweepX + sweepWidth) 0
                           [(0, RGBA 40 44 72 0),
                            (0.5, RGBA 120 122 180 (0.28 * (1 - eased))),
                            (1, RGBA 40 44 72 0)]
     in concat (map (drawFeather progress width height baseSize baseX) featherSeeds)
        @ [Save,
           SetGlobalCompositeOperation ''lighter'',
           SetFillStyle sweepGradient,
           FillRect (sweepX - sweepWidth) 0 (sweepWidth * 2) height,
           Restore])"

section \<open>Transition canvas\<close>

record transition_state =
  tr_from :: nat
  tr_to :: nat

record viewport_state =
  vp_width :: real
  vp_height :: real
  dpr :: real

text \<open>
  What the callbacks of one render close over: the \<^verbatim>\<open>images\<close> and \<^verbatim>\<open>duration\<close>
  props, the \<^verbatim>\<open>activeIndex\<close> state and the feather seeds of that render.
\<close>

record render_closure =
  cl_images :: loaded_images
  cl_activeIndex :: nat
  cl_duration :: real
  cl_featherSeeds :: "feather_seed list"

text \<open>
  The state of \<^verbatim>\<open>useTransitionCanvas\<close>: the two React state cells, the six refs, the
  props of the latest render, and the browser's queue of requested animation frames
  (handle and callback) with the last handle it gave out. \<open>ctxRef\<close> holds the calls the
  context has received, \<open>None\<close> while the ref is \<^verbatim>\<open>null\<close>.
\<close>

record engine =
  activeIndex :: nat
  isAnimating :: bool
  animationFrameRef :: "nat option"
  startTimestampRef :: real
  transitionRef :: transition_state
  ctxRef :: "canvas_op list option"
  viewportRef :: viewport_state
  isAnimatingRef :: bool
  prop_images :: loaded_images
  prop_duration :: real
  prop_featherSeeds :: "feather_seed list"
  rafQueue :: "(nat \<times> render_closure) list"
  rafCounter :: nat

definition engine_init :: engine where
  "engine_init =
    \<lparr>activeIndex = 0,
     isAnimating = False,
     animationFrameRef = None,
     startTimestampRef = 0,
     transitionRef = \<lparr>tr_from = 0, tr_to = 1\<rparr>,
     ctxRef = None,
     viewportRef = \<lparr>vp_width = 0, vp_height = 0, dpr = 1\<rparr>,
     isAnimatingRef = False,
     prop_images = [None, None],
     prop_duration = 1400,
     prop_featherSeeds = fst (useFeatherSeeds None),
     rafQueue = [],
     rafCounter = 0\<rparr>"

definition currentRender :: "engine \<Rightarrow> render_closure" where
  "currentRender st =
    \<lparr>cl_images = prop_images st,
     cl_activeIndex = activeIndex st,
     cl_duration = prop_duration st,
     cl_featherSeeds = prop_featherSeeds st\<rparr>"

text \<open>
  What \<^verbatim>\<open>ensureContext\<close> and \<^verbatim>\<open>resize\<close> read from the page: whether the canvas and
  the container are mounted, the container's bounding rectangle, whether
  \<^verbatim>\<open>getContext("2d")\<close> yields a context, \<^verbatim>\<open>window.devicePixelRatio\<close>, and whether the
  context has \<^verbatim>\<open>resetTransform\<close>.
\<close>

record dom =
  canvasMounted :: bool
  containerRect :: "(real \<times> real) option"
  context2d :: bool
  devicePixelRatio :: real
  hasResetTransform :: bool

definition contextCalls :: "engine \<Rightarrow> canvas_op list" where
  "contextCalls st = (case ctxRef st of None \<Rightarrow> [] | Some calls \<Rightarrow> calls)"

definition ensureContext :: "dom \<Rightarrow> engine \<Rightarrow> engine" where
  "ensureContext d st =
    (if \<not> canvasMounted d then st
     else if \<not> context2d d then st
     else st\<lparr>ctxRef := Some (contextCalls st)\<rparr>)"

definition resize :: "dom \<Rightarrow> engine \<Rightarrow> engine" where
  "resize d st =
    (if \<not> canvasMounted d then st
     else case containerRect d of
       None \<Rightarrow> st
     | Some (rectWidth, rectHeight) \<Rightarrow>
         let dpr = (if devicePixelRatio d = 0 then 1 else devicePixelRatio d);
             canvasWidth = max 1 (round (rectWidth * dpr));
             canvasHeight = max 1 (round (rectHeight * dpr))
         in if \<not> context2d d then st
            else st\<lparr>ctxRef := Some (contextCalls st
                                   @ [SetCanvasSize canvasWidth canvasHeight,
                                      if hasResetTransform d then ResetTransform
                                      else SetTransform 1 0 0 1 0 0,
                                      Scale dpr dpr]),
                    viewportRef := \<lparr>vp_width = rectWidth, vp_height = rectHeight, dpr = dpr\<rparr>\<rparr>)"

definition drawStatic :: "render_closure \<Rightarrow> engine \<Rightarrow> engine" where
  "drawStatic cl st =
    (case ctxRef st of
       None \<Rightarrow> st
     | Some ctx \<Rightarrow>
         let width = vp_width (viewportRef st);
             height = vp_height (viewportRef st)
         in if width = 0 \<or> height = 0 then st
            else
              (case arrayGet (cl_images cl) (cl_activeIndex cl) of
                 None \<Rightarrow>
                   st\<lparr>ctxRef := Some (ctx
                       @ [ClearRect 0 0 width height,
                          SetFillStyle (LinearGradient 0 0 width height
                                          [(0, RGBA 18 24 48 0.9), (1, RGBA 8 11 24 0.85)]),
                          FillRect 0 0 width height])\<rparr>
               | Some currentImage \<Rightarrow>
                   st\<lparr>ctxRef := Some (ctx
                       @ [ClearRect 0 0 width height]
                       @ drawCoverImage currentImage width height)\<rparr>))"

definition drawFrame :: "render_closure \<Rightarrow> real \<Rightarrow> engine \<Rightarrow> engine" where
  "drawFrame cl progress st =
    (let transition = transitionRef st in
     case ctxRef st of
       None \<Rightarrow> st
     | Some ctx \<Rightarrow>
         let width = vp_width (viewportRef st);
             height = vp_height (viewportRef st)
         in if width = 0 \<or> height = 0 then st
            else
              (case (arrayGet (cl_images cl) (tr_from transition),
                     arrayGet (cl_images cl) (tr_to transition)) of
                 (Some fromImage, Some toImage) \<Rightarrow>
                   let geo = computeRavenGeometry width height progress;
                       ravenGradient = LinearGradient
                           (offsetX geo)
                           (offsetY geo - shapeHeight geo * 0.5)
                           (offsetX geo + shapeWidth geo)
                           (offsetY geo + shapeHeight geo * 0.5)
                           [(0, RGBA 6 6 10 0.8), (0.45, RGBA 14 14 18 0.65), (1, RGBA 2 2 6 0.9)]
                   in st\<lparr>ctxRef := Some (ctx
                        @ [ClearRect 0 0 width height]
                        @ drawCoverImage fromImage width height
                        @ [Save] @ traceRavenPath (points geo) @ [Clip]
                        @ drawCoverImage toImage width height
                        @ [Restore]
                        @ [Save] @ traceRavenPath (points geo)
                        @ [SetFillStyle ravenGradient,
                           SetGlobalAlpha (0.75 + 0.15 * (1 - progress)),
                           Fill,
                           Restore]
                        @ drawFeathers (cl_featherSeeds cl) progress width height geo)\<rparr>
               | _ \<Rightarrow> st))"

text \<open>
  \<^verbatim>\<open>requestAnimationFrame\<close> hands out a fresh non-zero handle and queues the callback;
  \<^verbatim>\<open>cancelAnimationFrame\<close> removes the callback with that handle from the queue.
\<close>

definition requestAnimationFrame :: "render_closure \<Rightarrow> engine \<Rightarrow> nat \<times> engine" where
  "requestAnimationFrame cb st =
    (let h = Suc (rafCounter st)
     in (h, st\<lparr>rafCounter := h, rafQueue := rafQueue st @ [(h, cb)]\<rparr>))"

definition cancelAnimationFrame :: "nat \<Rightarrow> engine \<Rightarrow> engine" where
  "cancelAnimationFrame h st = st\<lparr>rafQueue := filter (\<lambda>(h', cb). h' \<noteq> h) (rafQueue st)\<rparr>"

definition cancelAnimation :: "engine \<Rightarrow> engine" where
  "cancelAnimation st =
    (case animationFrameRef st of
       None \<Rightarrow> st
     | Some h \<Rightarrow>
         if h = 0 then st
         else (cancelAnimationFrame h st)\<lparr>animationFrameRef := None\<rparr>)"

text \<open>
  \<^verbatim>\<open>animate\<close>, the frame callback. It is the callback of the render \<open>cl\<close> and requests
  itself again; \<open>0\<close> in \<open>startTimestampRef\<close> means that the run has no start time yet.
  The quotient \<open>elapsed / duration\<close> is a real division, meaningful for the non-zero
  durations the duration control offers (800 to 2400).
\<close>

definition animate :: "render_closure \<Rightarrow> real \<Rightarrow> engine \<Rightarrow> engine" where
  "animate cl timestamp st0 =
    (let st1 = (if startTimestampRef st0 = 0 then st0\<lparr>startTimestampRef := timestamp\<rparr> else st0);
         elapsed = timestamp - startTimestampRef st1;
         progress = clamp01 (elapsed / cl_duration cl);
         st2 = drawFrame cl progress st1
     in if progress < 1 then
          (case requestAnimationFrame cl st2 of
             (h, st3) \<Rightarrow> st3\<lparr>animationFrameRef := Some h\<rparr>)
        else
          drawStatic cl
            (cancelAnimation
              (st2\<lparr>isAnimatingRef := False,
                   isAnimating := False,
                   activeIndex := tr_to (transitionRef st2),
                   startTimestampRef := 0\<rparr>)))"

definition startTransition :: "render_closure \<Rightarrow> engine \<Rightarrow> engine" where
  "startTransition cl st =
    (if isAnimatingRef st then st
     else
       let nextIndex = (if cl_activeIndex cl = 0 then 1 else 0)
       in if arrayGet (cl_images cl) (cl_activeIndex cl) = None
             \<or> arrayGet (cl_images cl) nextIndex = None then st
          else
            (case requestAnimationFrame cl
                    (cancelAnimation
                      (st\<lparr>transitionRef := \<lparr>tr_from = cl_activeIndex cl, tr_to = nextIndex\<rparr>,
                          isAnimatingRef := True,
                          isAnimating := True,
                          startTimestampRef := 0\<rparr>)) of
               (h, st') \<Rightarrow> st'\<lparr>animationFrameRef := Some h\<rparr>))"

text \<open>
  The effects of the hook. On mount the first effect runs \<^verbatim>\<open>ensureContext\<close> and
  \<^verbatim>\<open>resize\<close>, the second draws the static frame when idle. When \<^verbatim>\<open>images\<close> or
  \<^verbatim>\<open>activeIndex\<close> has changed, \<^verbatim>\<open>drawStatic\<close> is a new callback, so the first
  effect's cleanup (\<^verbatim>\<open>cancelAnimation\<close>) runs before both effects run again.
\<close>

definition idleDraw :: "engine \<Rightarrow> engine" where
  "idleDraw st = (if \<not> isAnimatingRef st then drawStatic (currentRender st) st else st)"

definition mountEffects :: "dom \<Rightarrow> engine \<Rightarrow> engine" where
  "mountEffects d st = idleDraw (resize d (ensureContext d st))"

definition rerenderEffects :: "dom \<Rightarrow> engine \<Rightarrow> engine" where
  "rerenderEffects d st = mountEffects d (cancelAnimation st)"

definition handleResize :: "dom \<Rightarrow> engine \<Rightarrow> engine" where
  "handleResize d st = idleDraw (resize d st)"

text \<open>
  What can happen to a mounted component. The trigger button carries the
  \<^verbatim>\<open>startTransition\<close> of the latest render and is disabled until the render after a
  run's end, so a trigger sees the current \<^verbatim>\<open>activeIndex\<close> and \<^verbatim>\<open>images\<close>. A frame
  fires for a handle in the queue, which the browser removes before it calls the
  callback; when the callback has changed \<^verbatim>\<open>activeIndex\<close> the component renders again
  and its effects run. The duration comes from the range input of \<^verbatim>\<open>DurationControl\<close>
  (\<^verbatim>\<open>min={800} max={2400}\<close>), which yields no value outside that range.
\<close>

datatype engine_event =
    Mount dom
  | Trigger
  | Frame nat real dom
  | ImagesChanged loaded_images dom
  | DurationChanged real
  | WindowResize dom
  | Unmount

definition fireFrame :: "nat \<Rightarrow> real \<Rightarrow> dom \<Rightarrow> engine \<Rightarrow> engine" where
  "fireFrame h timestamp d st =
    (case map_of (rafQueue st) h of
       None \<Rightarrow> st
     | Some cl \<Rightarrow>
         let st' = animate cl timestamp (cancelAnimationFrame h st)
         in if activeIndex st' \<noteq> activeIndex st then rerenderEffects d st' else st')"

definition engine_step :: "engine \<Rightarrow> engine_event \<Rightarrow> engine" where
  "engine_step st ev =
    (case ev of
       Mount d \<Rightarrow> mountEffects d st
     | Trigger \<Rightarrow> startTransition (currentRender st) st
     | Frame h timestamp d \<Rightarrow> fireFrame h timestamp d st
     | ImagesChanged imgs d \<Rightarrow> rerenderEffects d (st\<lparr>prop_images := imgs\<rparr>)
     | DurationChanged dur \<Rightarrow>
         if 800 \<le> dur \<and> dur \<le> 2400 then st\<lparr>prop_duration := dur\<rparr> else st
     | WindowResize d \<Rightarrow> handleResize d st
     | Unmount \<Rightarrow> cancelAnimation st)"

definition engine_run :: "engine_event list \<Rightarrow> engine" where
  "engine_run evs = foldl engine_step engine_init evs"

section \<open>Scheduler invariant\<close>

text \<open>
  The progress \<^verbatim>\<open>animate\<close> computes for a frame at \<open>timestamp\<close>: the start time is the
  timestamp itself when the run has none yet.
\<close>

definition frameProgress :: "render_closure \<Rightarrow> real \<Rightarrow> engine \<Rightarrow> real" where
  "frameProgress cl timestamp st =
    clamp01 ((timestamp - (if startTimestampRef st = 0 then timestamp else startTimestampRef st))
             / cl_duration cl)"

text \<open>
  What holds of the scheduler in every state the component can reach: the active index
  and both ends of the transition are 0 or 1, the ends differ, a running transition
  leaves from the active index, the state cell and the ref agree on whether a run is
  under way, and at most one frame is requested, only during a run, under the handle
  the ref holds. The duration of the latest render and of the requested frame's render
  lies between 800 and 2400, so \<^verbatim>\<open>animate\<close> never divides by zero.
\<close>

definition scheduler_inv :: "engine \<Rightarrow> bool" where
  "scheduler_inv st \<longleftrightarrow>
     activeIndex st < 2 \<and>
     tr_from (transitionRef st) < 2 \<and>
     tr_to (transitionRef st) < 2 \<and>
     tr_from (transitionRef st) \<noteq> tr_to (transitionRef st) \<and>
     (isAnimatingRef st \<longrightarrow> tr_from (transitionRef st) = activeIndex st) \<and>
     isAnimating st = isAnimatingRef st \<and>
     length (rafQueue st) \<le> 1 \<and>
     800 \<le> prop_duration st \<and> prop_duration st \<le> 2400 \<and>
     (\<forall>h cl. (h, cl) \<in> set (rafQueue st) \<longrightarrow>
        isAnimatingRef st \<and> animationFrameRef st = Some h \<and> 0 < h \<and>
        800 \<le> cl_duration cl \<and> cl_duration cl \<le> 2400)"

section \<open>Placeholder fills\<close>

text \<open>
  The placeholder of \<^verbatim>\<open>drawStatic\<close> is the fill whose style is the two-stop gradient
  from \<^verbatim>\<open>rgba(18, 24, 48, 0.9)\<close> to \<^verbatim>\<open>rgba(8, 11, 24, 0.85)\<close>; no other call of the
  component sets that style.
\<close>

fun isPlaceholderFill :: "canvas_op \<Rightarrow> bool" where
  "isPlaceholderFill (SetFillStyle (LinearGradient x0 y0 x1 y1 stops)) =
     (stops = [(0, RGBA 18 24 48 0.9), (1, RGBA 8 11 24 0.85)])"
| "isPlaceholderFill _ = False"

text \<open>
  The context has received \<open>after\<close> where it had received \<open>before\<close>: the earlier calls
  are still there, and none of the calls that came after them is a placeholder fill.
\<close>

definition noPlaceholderAdded :: "canvas_op list \<Rightarrow> canvas_op list \<Rightarrow> bool" where
  "noPlaceholderAdded before after \<longleftrightarrow>
     take (length before) after = before \<and>
     filter isPlaceholderFill (drop (length before) after) = []"

text \<open>
  What holds of every requested frame: its callback belongs to a render that saw the
  current images and the current active index, and in that render both images of the
  transition are present.
\<close>

definition frames_inv :: "engine \<Rightarrow> bool" where
  "frames_inv st \<longleftrightarrow>
     (\<forall>h cl. (h, cl) \<in> set (rafQueue st) \<longrightarrow>
        cl_images cl = prop_images st \<and>
        cl_activeIndex cl = activeIndex st \<and>
        arrayGet (cl_images cl) (tr_from (transitionRef st)) \<noteq> None \<and>
        arrayGet (cl_images cl) (tr_to (transitionRef st)) \<noteq> None)"

section \<open>Example inputs\<close>

text \<open>
  Concrete inputs for the worked instances further down: two decoded images, a page
  with an 800 by 600 stage at pixel ratio 2, a page whose stage has zero width, and the
  closures of renders that see both images, or only the first.
\<close>

definition firstImage :: html_image where
  "firstImage = \<lparr>img_src = ''/default-first.svg'', img_width = 1600, img_height = 900\<rparr>"

definition secondImage :: html_image where
  "secondImage = \<lparr>img_src = ''/default-second.svg'', img_width = 1600, img_height = 900\<rparr>"

definition stagePage :: dom where
  "stagePage = \<lparr>canvasMounted = True, containerRect = Some (800, 600), context2d = True,
                 devicePixelRatio = 2, hasResetTransform = True\<rparr>"

definition collapsedPage :: dom where
  "collapsedPage = \<lparr>canvasMounted = True, containerRect = Some (0, 600), context2d = True,
                     devicePixelRatio = 2, hasResetTransform = True\<rparr>"

definition bothLoaded :: render_closure where
  "bothLoaded = \<lparr>cl_images = [Some firstImage, Some secondImage], cl_activeIndex = 0,
                  cl_duration = 1400, cl_featherSeeds = []\<rparr>"

definition secondMissing :: render_closure where
  "secondMissing = \<lparr>cl_images = [Some firstImage, None], cl_activeIndex = 0,
                     cl_duration = 1400, cl_featherSeeds = []\<rparr>"

definition firstRender :: render_closure where
  "firstRender = \<lparr>cl_images = [Some firstImage, Some secondImage], cl_activeIndex = 0,
                   cl_duration = 1400, cl_featherSeeds = fst (useFeatherSeeds None)\<rparr>"

text \<open>
  The component is mounted and both images arrive; then the trigger is pressed and the
  first frame of the run fires at time 1000.
\<close>

definition readyEvents :: "engine_event list" where
  "readyEvents = [Mount stagePage, ImagesChanged [Some firstImage, Some secondImage] stagePage]"

definition runningEvents :: "engine_event list" where
  "runningEvents = readyEvents @ [Trigger, Frame 1 1000 stagePage]"

text \<open>During that run the first slot is given a new source, so its image becomes absent.\<close>

definition replacedEvents :: "engine_event list" where
  "replacedEvents = runningEvents @ [ImagesChanged [None, Some secondImage] stagePage]"


section \<open>Easing curves\<close>

lemma easeInOutCubic_mono:
  assumes "0 \<le> s" "s \<le> t" "t \<le> 1"
  shows "easeInOutCubic s \<le> easeInOutCubic t"
proof -
  consider (low) "t < 1/2" | (cross) "s < 1/2" "1/2 \<le> t" | (high) "1/2 \<le> s"
    by linarith
  then show ?thesis
  proof cases
    case low
    with assms have "s < 1/2" by simp
    have "s ^ 3 \<le> t ^ 3"
      using assms by (intro power_mono) auto
    then have "4 * s * s * s \<le> 4 * t * t * t"
      by (simp add: power3_eq_cube mult.assoc)
    with low \<open>s < 1/2\<close> show ?thesis
      by (simp add: easeInOutCubic_def)
  next
    case cross
    have "s ^ 3 \<le> (1/2) ^ 3"
      using assms cross by (intro power_mono) auto
    then have lo: "4 * s * s * s \<le> 1/2"
      by (simp add: power3_eq_cube mult.assoc)
    have "(2 - 2 * t) ^ 3 \<le> 1 ^ 3"
      using assms cross by (intro power_mono) auto
    then have hi: "1/2 \<le> 1 - (- 2 * t + 2) ^ 3 / 2"
      by simp
    from lo hi cross show ?thesis
      by (simp add: easeInOutCubic_def)
  next
    case high
    with assms have "1/2 \<le> t" by simp
    have "(2 - 2 * t) ^ 3 \<le> (2 - 2 * s) ^ 3"
      using assms by (intro power_mono) auto
    with high \<open>1/2 \<le> t\<close> show ?thesis
      by (simp add: easeInOutCubic_def)
  qed
qed

lemma easeOutQuart_mono:
  assumes "s \<le> t" "t \<le> 1"
  shows "easeOutQuart s \<le> easeOutQuart t"
proof -
  have "(1 - t) ^ 4 \<le> (1 - s) ^ 4"
    using assms by (intro power_mono) auto
  then show ?thesis
    by (simp add: easeOutQuart_def)
qed

text \<open>
  Claim C5. Both easing curves take 0 to 0 and 1 to 1, and both are monotonic
  non-decreasing on the unit interval: for \<open>0 \<le> s \<le> t \<le> 1\<close> the value at \<open>s\<close> is at
  most the value at \<open>t\<close>.
\<close>

theorem easing_endpoints_and_monotone:
  assumes "0 \<le> s" and "s \<le> t" and "t \<le> 1"
  shows "easeInOutCubic 0 = 0 \<and> easeInOutCubic 1 = 1 \<and>
         easeOutQuart 0 = 0 \<and> easeOutQuart 1 = 1 \<and>
         easeInOutCubic s \<le> easeInOutCubic t \<and> easeOutQuart s \<le> easeOutQuart t"
proof -
  have "easeInOutCubic 0 = 0" "easeInOutCubic 1 = 1"
    by (simp_all add: easeInOutCubic_def)
  moreover have "easeOutQuart 0 = 0" "easeOutQuart 1 = 1"
    by (simp_all add: easeOutQuart_def)
  moreover note easeInOutCubic_mono [OF assms] easeOutQuart_mono [OF assms(2,3)]
  ultimately show ?thesis by simp
qed

theorem easing_endpoints_and_monotone_witness:
  "(0::real) \<le> 1/4 \<and> (1/4::real) \<le> 3/4 \<and> (3/4::real) \<le> 1 \<and>
   easeInOutCubic (1/4) = 1/16 \<and> easeInOutCubic (3/4) = 15/16 \<and>
   easeInOutCubic (1/4) \<le> easeInOutCubic (3/4) \<and>
   easeOutQuart (1/4) \<le> easeOutQuart (3/4)"
proof -
  have v: "easeInOutCubic (1/4) = 1/16" "easeInOutCubic (3/4) = 15/16"
    by (simp_all add: easeInOutCubic_def power3_eq_cube)
  from easing_endpoints_and_monotone [of "1/4" "3/4"] v show ?thesis
    by simp
qed

section \<open>Geometry properties\<close>

lemma geometry_offsetX:
  "offsetX (computeRavenGeometry w h p) =
     easeInOutCubic p * (w + min w h * 1.32 * 0.85) - min w h * 1.32 * 0.75"
  by (simp add: computeRavenGeometry_def Let_def)

lemma geometry_shapeWidth: "shapeWidth (computeRavenGeometry w h p) = min w h * 1.32"
  by (simp add: computeRavenGeometry_def Let_def)

text \<open>
  Claim C6. For every width and height the silhouette's horizontal travel between
  progress 0 and progress 1 is \<open>w + 0.85 \<cdot> shapeWidth\<close>, where \<open>shapeWidth\<close> is
  \<open>1.32 \<cdot> min w h\<close> (exact arithmetic).
\<close>

theorem geometry_travel:
  "offsetX (computeRavenGeometry w h 1) - offsetX (computeRavenGeometry w h 0)
     = w + 0.85 * shapeWidth (computeRavenGeometry w h 1)
   \<and> shapeWidth (computeRavenGeometry w h 1) = 1.32 * min w h
   \<and> shapeWidth (computeRavenGeometry w h 0) = 1.32 * min w h"
  by (simp add: geometry_offsetX geometry_shapeWidth easeInOutCubic_def)

lemma RAVEN_POINTS_length: "length RAVEN_POINTS = 25"
  by (simp add: RAVEN_POINTS_def)

lemma geometry_points:
  "points (computeRavenGeometry w h p) =
     map (\<lambda>(nx, ny). \<lparr>pt_x = offsetX (computeRavenGeometry w h p)
                              + shapeWidth (computeRavenGeometry w h p) * (nx + 0.15)
                              + (ny - 0.5) * shapeHeight (computeRavenGeometry w h p)
                                * ((eased (computeRavenGeometry w h p) - 0.5) * 0.55),
                       pt_y = offsetY (computeRavenGeometry w h p)
                              + shapeHeight (computeRavenGeometry w h p) * (ny - 0.5)
                                * (1 - sin (eased (computeRavenGeometry w h p) * pi) * 0.18 * 0.35)\<rparr>)
         RAVEN_POINTS"
  by (simp add: computeRavenGeometry_def Let_def)

text \<open>
  Claim C7. For every viewport and progress the polygon has exactly 25 vertices, and
  vertex \<open>i\<close> is the image of the \<open>i\<close>-th authored control point under the frame's
  offset, scale and skew: count and order do not depend on progress or viewport.
\<close>

theorem geometry_points_count_and_order:
  assumes "i < 25"
  shows "length (points (computeRavenGeometry w h p)) = 25 \<and>
         pt_x (points (computeRavenGeometry w h p) ! i) =
           offsetX (computeRavenGeometry w h p)
           + shapeWidth (computeRavenGeometry w h p) * (fst (RAVEN_POINTS ! i) + 0.15)
           + (snd (RAVEN_POINTS ! i) - 0.5) * shapeHeight (computeRavenGeometry w h p)
             * ((eased (computeRavenGeometry w h p) - 0.5) * 0.55) \<and>
         pt_y (points (computeRavenGeometry w h p) ! i) =
           offsetY (computeRavenGeometry w h p)
           + shapeHeight (computeRavenGeometry w h p) * (snd (RAVEN_POINTS ! i) - 0.5)
             * (1 - sin (eased (computeRavenGeometry w h p) * pi) * 0.18 * 0.35)"
proof -
  from assms have i: "i < length RAVEN_POINTS"
    by (simp add: RAVEN_POINTS_length)
  have len: "length (points (computeRavenGeometry w h p)) = 25"
    by (simp add: geometry_points RAVEN_POINTS_length)
  obtain nx ny where nth: "RAVEN_POINTS ! i = (nx, ny)"
    by (cases "RAVEN_POINTS ! i")
  from i nth len show ?thesis
    by (simp add: geometry_points)
qed


text \<open>
  The vertex of the first control point at progress 0 in an 800 by 600 viewport.
\<close>

theorem geometry_points_count_and_order_witness:
  "(0::nat) < 25 \<and>
   length (points (computeRavenGeometry 800 600 0)) = 25 \<and>
   pt_x (points (computeRavenGeometry 800 600 0) ! 0) = - 699.402 \<and>
   pt_y (points (computeRavenGeometry 800 600 0) ! 0) = 320.88"
proof -
  have g: "offsetX (computeRavenGeometry 800 600 0) = - 594"
          "offsetY (computeRavenGeometry 800 600 0) = 312"
          "shapeWidth (computeRavenGeometry 800 600 0) = 792"
          "shapeHeight (computeRavenGeometry 800 600 0) = 444"
          "eased (computeRavenGeometry 800 600 0) = 0"
    by (simp_all add: computeRavenGeometry_def Let_def easeInOutCubic_def)
  have p: "RAVEN_POINTS ! 0 = (- 0.28, 0.52)"
    by (simp add: RAVEN_POINTS_def)
  from geometry_points_count_and_order [of 0 800 600 0] show ?thesis
    by (simp add: g p)
qed

section \<open>Feather seeds\<close>

lemma useFeatherSeeds_first:
  "useFeatherSeeds None = (map featherSeedAt [0..<18], Some (map featherSeedAt [0..<18]))"
  by (simp add: useFeatherSeeds_def useMemo_def Let_def)

lemma useFeatherSeeds_again:
  "useFeatherSeeds (Some seeds) = (seeds, Some seeds)"
  by (simp add: useFeatherSeeds_def useMemo_def)

lemma featherSeedAt_offsetY_range:
  "- 0.45 \<le> fs_offsetY (featherSeedAt idx) \<and> fs_offsetY (featherSeedAt idx) \<le> 0.45"
proof -
  have "\<exists>c. - 1 \<le> c \<and> c \<le> 1 \<and> fs_offsetY (featherSeedAt idx) = (c + 1) / 2 * (9/10) - 9/20"
    by (rule exI [of _ "cos ((real idx + 1) * 37 * 0.77)"])
       (simp add: featherSeedAt_def Let_def)
  then obtain c where "- 1 \<le> c" "c \<le> 1"
      and "fs_offsetY (featherSeedAt idx) = (c + 1) / 2 * (9/10) - 9/20"
    by blast
  then have "- (9/20) \<le> fs_offsetY (featherSeedAt idx)" "fs_offsetY (featherSeedAt idx) \<le> 9/20"
    by argo+
  then show ?thesis
    by simp
qed

lemma featherSeedAt_sizeScale_range:
  "0.55 \<le> sizeScale (featherSeedAt idx) \<and> sizeScale (featherSeedAt idx) \<le> 1.2"
proof -
  have "\<exists>c. - 1 \<le> c \<and> c \<le> 1 \<and> sizeScale (featherSeedAt idx) = 11/20 + (c + 1) / 2 * (13/20)"
    by (rule exI [of _ "sin ((real idx + 1) * 37 * 1.3)"])
       (simp add: featherSeedAt_def Let_def)
  then obtain c where "- 1 \<le> c" "c \<le> 1"
      and "sizeScale (featherSeedAt idx) = 11/20 + (c + 1) / 2 * (13/20)"
    by blast
  then have "11/20 \<le> sizeScale (featherSeedAt idx)" "sizeScale (featherSeedAt idx) \<le> 6/5"
    by argo+
  then show ?thesis
    by simp
qed

text \<open>
  Claim C8. The generator yields exactly 18 seeds. The seed at \<open>idx\<close> is computed from
  \<open>(idx + 1) \<cdot> 37\<close>; its \<open>offsetY\<close> lies in \<open>[-0.45, 0.45]\<close>, its \<open>sizeScale\<close> in
  \<open>[0.55, 1.2]\<close>, and its \<open>delay\<close> is \<open>(idx mod 6) \<cdot> 0.05\<close>. The first call fills the memo
  cell, and a call with the filled cell returns the same 18 seeds and the same cell.
\<close>

theorem featherSeeds_generated_once:
  assumes "idx < 18"
  shows "length (fst (useFeatherSeeds None)) = 18 \<and>
         fs_offsetY (fst (useFeatherSeeds None) ! idx)
           = (cos (real ((idx + 1) * 37) * 0.77) + 1) / 2 * 0.9 - 0.45 \<and>
         sizeScale (fst (useFeatherSeeds None) ! idx)
           = 0.55 + (sin (real ((idx + 1) * 37) * 1.3) + 1) / 2 * 0.65 \<and>
         sway (fst (useFeatherSeeds None) ! idx) = sin (real ((idx + 1) * 37) * 0.61) * 0.9 \<and>
         delay (fst (useFeatherSeeds None) ! idx) = real (idx mod 6) * 0.05 \<and>
         - 0.45 \<le> fs_offsetY (fst (useFeatherSeeds None) ! idx) \<and>
         fs_offsetY (fst (useFeatherSeeds None) ! idx) \<le> 0.45 \<and>
         0.55 \<le> sizeScale (fst (useFeatherSeeds None) ! idx) \<and>
         sizeScale (fst (useFeatherSeeds None) ! idx) \<le> 1.2 \<and>
         useFeatherSeeds (snd (useFeatherSeeds None))
           = (fst (useFeatherSeeds None), snd (useFeatherSeeds None))"
proof -
  have nth: "fst (useFeatherSeeds None) ! idx = featherSeedAt idx"
    using assms by (simp add: useFeatherSeeds_first del: upt_Suc)
  have seed: "(real idx + 1) * 37 = real ((idx + 1) * 37)"
    by simp
  have "fs_offsetY (featherSeedAt idx) = (cos (real ((idx + 1) * 37) * 0.77) + 1) / 2 * 0.9 - 0.45"
       "sizeScale (featherSeedAt idx) = 0.55 + (sin (real ((idx + 1) * 37) * 1.3) + 1) / 2 * 0.65"
       "sway (featherSeedAt idx) = sin (real ((idx + 1) * 37) * 0.61) * 0.9"
       "delay (featherSeedAt idx) = real (idx mod 6) * 0.05"
    unfolding seed [symmetric] by (simp_all add: featherSeedAt_def Let_def)
  moreover have "length (fst (useFeatherSeeds None)) = 18"
    by (simp add: useFeatherSeeds_first del: upt_Suc)
  moreover have "useFeatherSeeds (snd (useFeatherSeeds None))
           = (fst (useFeatherSeeds None), snd (useFeatherSeeds None))"
    by (simp add: useFeatherSeeds_first useFeatherSeeds_again)
  moreover note featherSeedAt_offsetY_range [of idx] featherSeedAt_sizeScale_range [of idx]
  ultimately show ?thesis
    unfolding nth by blast
qed

theorem featherSeeds_generated_once_witness:
  "(7::nat) < 18 \<and>
   length (fst (useFeatherSeeds None)) = 18 \<and>
   delay (fst (useFeatherSeeds None) ! 7) = 0.05 \<and>
   sway (fst (useFeatherSeeds None) ! 7) = sin 180.56 * 0.9 \<and>
   - 0.45 \<le> fs_offsetY (fst (useFeatherSeeds None) ! 7) \<and>
   sizeScale (fst (useFeatherSeeds None) ! 7) \<le> 1.2 \<and>
   useFeatherSeeds (snd (useFeatherSeeds None))
     = (fst (useFeatherSeeds None), snd (useFeatherSeeds None))"
proof -
  have h: "(7::nat) < 18" by simp
  note t = featherSeeds_generated_once [OF h]
  from t have len: "length (fst (useFeatherSeeds None)) = 18"
    by blast
  from t have d: "delay (fst (useFeatherSeeds None) ! 7) = real (7 mod 6) * 0.05"
    by blast
  from t have s: "sway (fst (useFeatherSeeds None) ! 7) = sin (real ((7 + 1) * 37) * 0.61) * 0.9"
    by blast
  from t have lo: "- 0.45 \<le> fs_offsetY (fst (useFeatherSeeds None) ! 7)"
    by blast
  from t have hi: "sizeScale (fst (useFeatherSeeds None) ! 7) \<le> 1.2"
    by blast
  from t have memo: "useFeatherSeeds (snd (useFeatherSeeds None))
     = (fst (useFeatherSeeds None), snd (useFeatherSeeds None))"
    by blast
  have "real (7 mod 6) * 0.05 = 0.05" "real ((7 + 1) * 37) * 0.61 = 180.56"
    by simp_all
  with h len d s lo hi memo show ?thesis
    by simp
qed

section \<open>Feather overlay\<close>

text \<open>A bound on \<open>pi\<close> from the Maclaurin series of the sine, to show that the first seed sways.\<close>

lemma sin_partial_sum_12:
  fixes x :: real
  shows "(\<Sum>m<12. sin_coeff m * x ^ m)
           = x - x^3 / 6 + x^5 / 120 - x^7 / 5040 + x^9 / 362880 - x^11 / 39916800"
proof -
  have c: "sin_coeff (Suc 0) = 1" "sin_coeff 2 = 0" "sin_coeff 3 = - 1 / 6" "sin_coeff 4 = 0"
          "sin_coeff 5 = 1 / 120" "sin_coeff 6 = 0" "sin_coeff 7 = - 1 / 5040" "sin_coeff 8 = 0"
          "sin_coeff 9 = 1 / 362880" "sin_coeff 10 = 0" "sin_coeff 11 = - 1 / 39916800"
    by (simp_all add: sin_coeff_def fact_numeral)
  have "(\<Sum>m<12. f m) = f 0 + f 1 + f 2 + f 3 + f 4 + f 5 + f 6 + f 7 + f 8 + f 9 + f 10 + f 11"
    for f :: "nat \<Rightarrow> real"
    by (simp add: eval_nat_numeral lessThan_Suc)
  then show ?thesis
    by (simp add: c)
qed

lemma sin_16_5_negative: "sin (16/5 :: real) < 0"
proof -
  have "\<bar>sin (16/5 :: real) - (\<Sum>m<12. sin_coeff m * (16/5) ^ m)\<bar> \<le> inverse (fact 12) * \<bar>16/5 :: real\<bar> ^ 12"
    by (rule Maclaurin_sin_bound)
  then have "sin (16/5 :: real) \<le> (\<Sum>m<12. sin_coeff m * (16/5 :: real) ^ m) + inverse (fact 12) * \<bar>16/5 :: real\<bar> ^ 12"
    by linarith
  also have "\<dots> < 0"
    unfolding sin_partial_sum_12 by (simp add: fact_numeral power_divide)
  finally show ?thesis .
qed

lemma pi_le_16_5: "pi \<le> 16/5"
proof (rule ccontr)
  assume "\<not> pi \<le> 16/5"
  then have "0 < sin (16/5 :: real)"
    by (intro sin_gt_zero) simp_all
  with sin_16_5_negative show False
    by simp
qed

lemma pi_ge_3: "3 \<le> pi"
proof -
  have "sin (pi/6) \<le> pi/6"
    by (rule sin_x_le_x) simp
  then show ?thesis
    by (simp add: sin_30)
qed

lemma sin_2257_nonzero: "sin (2257/100 :: real) \<noteq> 0"
proof
  assume "sin (2257/100 :: real) = 0"
  then obtain i :: int where i: "2257/100 = of_int i * pi"
    by (auto simp add: sin_zero_iff_int2)
  have "i \<le> 7 \<or> 8 \<le> i"
    by linarith
  then show False
  proof
    assume "i \<le> 7"
    then have "of_int i * pi \<le> 7 * pi"
      by (intro mult_right_mono) simp_all
    with pi_le_16_5 i show False
      by linarith
  next
    assume "8 \<le> i"
    then have "8 * pi \<le> of_int i * pi"
      by (intro mult_right_mono) simp_all
    with pi_ge_3 i show False
      by linarith
  qed
qed


lemma first_seed:
  "delay (featherSeedAt 0) = 0"
  "sway (featherSeedAt 0) = sin (2257/100) * (9/10)"
  by (simp_all add: featherSeedAt_def Let_def)

lemma first_seed_sways: "sway (featherSeedAt 0) \<noteq> 0"
  using sin_2257_nonzero by (simp add: first_seed)

lemma drawFeather_drawn:
  assumes "drawFeather progress width height baseSize baseX seed \<noteq> []"
  shows "drawFeather progress width height baseSize baseX seed =
    [Save,
     SetGlobalAlpha ((1 - clamp01 ((progress - delay seed) / 0.75)) * 0.5),
     Translate (baseX - clamp01 ((progress - delay seed) / 0.75) * width * 0.32)
               (height * 0.5 + fs_offsetY seed * height * 0.32),
     Rotate (- 0.35 + sway seed * (1 - (1 - clamp01 ((progress - delay seed) / 0.75)))),
     BeginPath,
     MoveTo 0 0,
     LineTo (- (baseSize * sizeScale seed) * 0.5) (- (baseSize * sizeScale seed) * 1.1),
     QuadraticCurveTo ((baseSize * sizeScale seed) * 0.1) (- (baseSize * sizeScale seed) * 0.9)
                      ((baseSize * sizeScale seed) * 0.22) (- (baseSize * sizeScale seed) * 1.45),
     LineTo ((baseSize * sizeScale seed) * 0.18) (- (baseSize * sizeScale seed) * 0.35),
     ClosePath,
     SetFillStyle (LinearGradient 0 0 0 (- (baseSize * sizeScale seed) * 1.4)
                     [(0, RGBA 0 0 0 0.62), (1, RGBA 42 44 60 0.15)]),
     Fill,
     Restore]"
proof -
  from assms have a: "\<not> (progress - delay seed) / 0.75 \<le> 0"
    unfolding drawFeather_def Let_def by (auto split: if_splits)
  from assms have b: "\<not> 1 - clamp01 ((progress - delay seed) / 0.75) \<le> 0.01"
    unfolding drawFeather_def Let_def by (auto split: if_splits)
  show ?thesis
    unfolding drawFeather_def Let_def
    by (simp only: a b if_False)
qed

text \<open>
  Claim C2, as the code has it. Every feather that is drawn is filled with opacity
  \<open>0.5 \<cdot> fade\<close>, where \<open>fade = 1 - clamp01 ((progress - delay) / 0.75)\<close>, and is rotated by
  the base angle \<open>-0.35\<close> plus \<open>sway \<cdot> (1 - fade)\<close>; these are the only opacity and the only
  rotation among the feather's drawing calls.
\<close>

theorem drawn_feather_rotation_and_opacity:
  assumes "drawFeather progress width height baseSize baseX seed \<noteq> []"
  shows "drawFeather progress width height baseSize baseX seed ! 1
           = SetGlobalAlpha (0.5 * (1 - clamp01 ((progress - delay seed) / 0.75))) \<and>
         drawFeather progress width height baseSize baseX seed ! 3
           = Rotate (- 0.35 + sway seed * (1 - (1 - clamp01 ((progress - delay seed) / 0.75)))) \<and>
         (\<forall>a. SetGlobalAlpha a \<in> set (drawFeather progress width height baseSize baseX seed)
              \<longrightarrow> a = 0.5 * (1 - clamp01 ((progress - delay seed) / 0.75))) \<and>
         (\<forall>r. Rotate r \<in> set (drawFeather progress width height baseSize baseX seed)
              \<longrightarrow> r = - 0.35 + sway seed * (1 - (1 - clamp01 ((progress - delay seed) / 0.75))))"
  unfolding drawFeather_drawn [OF assms]
  by simp

lemma first_seed_drawn:
  "drawFeather 0.3 800 600 42 (- 213.1344) (featherSeedAt 0) \<noteq> []"
  "drawFeather 0.6 800 600 42 723.8208 (featherSeedAt 0) \<noteq> []"
  by (simp_all add: drawFeather_def Let_def first_seed clamp01_def)

lemma first_seed_fade:
  "1 - clamp01 ((0.3 - delay (featherSeedAt 0)) / 0.75) = 0.6"
  "1 - clamp01 ((0.6 - delay (featherSeedAt 0)) / 0.75) = 0.2"
  by (simp_all add: first_seed clamp01_def)

theorem drawn_feather_rotation_and_opacity_witness:
  "drawFeather 0.3 800 600 42 (- 213.1344) (featherSeedAt 0) \<noteq> [] \<and>
   drawFeather 0.3 800 600 42 (- 213.1344) (featherSeedAt 0) ! 1 = SetGlobalAlpha 0.3 \<and>
   drawFeather 0.3 800 600 42 (- 213.1344) (featherSeedAt 0) ! 3
     = Rotate (- 0.35 + sway (featherSeedAt 0) * 0.4)"
  using drawn_feather_rotation_and_opacity [OF first_seed_drawn(1)] first_seed_drawn(1)
  by (simp add: first_seed(1) clamp01_def)

lemma overlay_inputs:
  "min 800 600 * 0.07 = (42::real)"
  "offsetX (computeRavenGeometry 800 600 0.3) + shapeWidth (computeRavenGeometry 800 600 0.3) * 0.28
     = - 213.1344"
  "offsetX (computeRavenGeometry 800 600 0.6) + shapeWidth (computeRavenGeometry 800 600 0.6) * 0.28
     = 723.8208"
  by (simp_all add: geometry_offsetX geometry_shapeWidth easeInOutCubic_def power3_eq_cube)

text \<open>
  The first generated seed in an 800 by 600 viewport, at progress 0.3 (fade 0.6) and at
  progress 0.6 (fade 0.2), with the base size and the base position \<^verbatim>\<open>drawFeathers\<close>
  computes there. The rotation is not \<open>-0.35 + sway \<cdot> fade\<close>, and the rotation minus
  \<open>sway \<cdot> fade\<close> differs between the two frames, so no fixed base angle fits.
\<close>

theorem feather_rotation_is_not_sway_times_fade:
  "fst (useFeatherSeeds None) ! 0 = featherSeedAt 0 \<and>
   min 800 600 * 0.07 = (42::real) \<and>
   offsetX (computeRavenGeometry 800 600 0.3) + shapeWidth (computeRavenGeometry 800 600 0.3) * 0.28
     = - 213.1344 \<and>
   offsetX (computeRavenGeometry 800 600 0.6) + shapeWidth (computeRavenGeometry 800 600 0.6) * 0.28
     = 723.8208 \<and>
   1 - clamp01 ((0.3 - delay (featherSeedAt 0)) / 0.75) = 0.6 \<and>
   1 - clamp01 ((0.6 - delay (featherSeedAt 0)) / 0.75) = 0.2 \<and>
   drawFeather 0.3 800 600 42 (- 213.1344) (featherSeedAt 0) ! 3
     = Rotate (- 0.35 + sway (featherSeedAt 0) * 0.4) \<and>
   drawFeather 0.6 800 600 42 723.8208 (featherSeedAt 0) ! 3
     = Rotate (- 0.35 + sway (featherSeedAt 0) * 0.8) \<and>
   drawFeather 0.3 800 600 42 (- 213.1344) (featherSeedAt 0) ! 3
     \<noteq> Rotate (- 0.35 + sway (featherSeedAt 0) * 0.6) \<and>
   (- 0.35 + sway (featherSeedAt 0) * 0.4) - sway (featherSeedAt 0) * 0.6
     \<noteq> (- 0.35 + sway (featherSeedAt 0) * 0.8) - sway (featherSeedAt 0) * 0.2"
proof -
  have s: "fst (useFeatherSeeds None) ! 0 = featherSeedAt 0"
    by (simp add: useFeatherSeeds_first del: upt_Suc)
  have r1: "drawFeather 0.3 800 600 42 (- 213.1344) (featherSeedAt 0) ! 3
     = Rotate (- 0.35 + sway (featherSeedAt 0) * 0.4)"
    unfolding drawFeather_drawn [OF first_seed_drawn(1)] by (simp add: first_seed(1) clamp01_def)
  have r2: "drawFeather 0.6 800 600 42 723.8208 (featherSeedAt 0) ! 3
     = Rotate (- 0.35 + sway (featherSeedAt 0) * 0.8)"
    unfolding drawFeather_drawn [OF first_seed_drawn(2)] by (simp add: first_seed(1) clamp01_def)
  have n1: "- 0.35 + sway (featherSeedAt 0) * 0.4 \<noteq> - 0.35 + sway (featherSeedAt 0) * 0.6"
    using first_seed_sways by simp
  have n2: "(- 0.35 + sway (featherSeedAt 0) * 0.4) - sway (featherSeedAt 0) * 0.6
     \<noteq> (- 0.35 + sway (featherSeedAt 0) * 0.8) - sway (featherSeedAt 0) * 0.2"
    using first_seed_sways by simp
  from n1 have n1': "drawFeather 0.3 800 600 42 (- 213.1344) (featherSeedAt 0) ! 3
     \<noteq> Rotate (- 0.35 + sway (featherSeedAt 0) * 0.6)"
    unfolding r1 by simp
  from s overlay_inputs first_seed_fade r1 r2 n1' n2 show ?thesis
    by (intro conjI)
qed

section \<open>Image loading\<close>

lemma arrayGet_arraySet:
  "arrayGet (arraySet xs i v) j = (if j = i then v else arrayGet xs j)"
  by (auto simp add: arrayGet_def arraySet_def nth_append)

lemma pending_foldl_startLoad:
  "pending (foldl startLoad st ps) = pending st @ map (\<lambda>(src, index). (index, src)) ps"
  by (induction ps arbitrary: st) (auto simp add: startLoad_def)

lemma images_foldl_startLoad:
  "arrayGet (images (foldl startLoad st ps)) j
     = (if j \<in> snd ` set ps then None else arrayGet (images st) j)"
proof (induction ps arbitrary: st)
  case Nil
  then show ?case by simp
next
  case (Cons p ps)
  obtain src index where p: "p = (src, index)"
    by (cases p)
  have "arrayGet (images (startLoad st p)) j = (if j = index then None else arrayGet (images st) j)"
    by (simp add: p startLoad_def arrayGet_arraySet)
  with Cons.IH [of "startLoad st p"] show ?case
    by (auto simp add: p)
qed

lemma snd_zip_upt: "snd ` set (zip xs [0..<length xs]) = {0..<length xs}"
proof -
  have "snd ` set (zip xs [0..<length xs]) = set (map snd (zip xs [0..<length xs]))"
    by (simp only: set_map)
  also have "map snd (zip xs [0..<length xs]) = [0..<length xs]"
    by (rule map_snd_zip) simp
  finally show ?thesis
    by simp
qed

lemma loadEffect_clears:
  "index < length sources \<Longrightarrow> arrayGet (images (loadEffect sources st)) index = None"
  by (simp add: loadEffect_def images_foldl_startLoad snd_zip_upt)

lemma loadEffect_pending:
  "pending (loadEffect sources st)
     = pending st @ map (\<lambda>(src, index). (index, src)) (zip sources [0..<length sources])"
  by (simp add: loadEffect_def pending_foldl_startLoad)

lemma loadEffect_registers:
  assumes "index < length sources"
  shows "(index, sources ! index) \<in> set (pending (loadEffect sources st))"
proof -
  from assms have "(sources ! index, index) \<in> set (zip sources [0..<length sources])"
    by (auto simp add: set_zip intro!: exI [of _ index])
  then have "(index, sources ! index)
               \<in> set (map (\<lambda>(src, index). (index, src)) (zip sources [0..<length sources]))"
    by force
  then show ?thesis
    by (simp add: loadEffect_pending)
qed

lemma imageOnload_commits:
  "arrayGet (images (imageOnload (index, src) dims st)) index
     = Some \<lparr>img_src = src, img_width = fst dims, img_height = snd dims\<rparr>"
  by (simp add: imageOnload_def arrayGet_arraySet)

text \<open>
  Claim C1, as the code has it. Starting the loads for a list of sources resets each of
  its slots to absent and registers a new outstanding load for it, while every load that
  was outstanding before stays outstanding. When an outstanding load completes, its
  image is committed to its slot, whatever has been requested for that slot since.
\<close>

theorem load_completion_is_always_committed:
  assumes "index < length sources"
  shows "arrayGet (images (loadEffect sources st)) index = None \<and>
         (index, sources ! index) \<in> set (pending (loadEffect sources st)) \<and>
         set (pending st) \<subseteq> set (pending (loadEffect sources st)) \<and>
         (\<forall>h dims st'. h \<in> set (pending st') \<longrightarrow>
            loader_step (ImageLoaded h dims) st' = Some (imageOnload h dims st') \<and>
            arrayGet (images (imageOnload h dims st')) (fst h)
              = Some \<lparr>img_src = snd h, img_width = fst dims, img_height = snd dims\<rparr>)"
proof -
  have "set (pending st) \<subseteq> set (pending (loadEffect sources st))"
    by (simp add: loadEffect_pending)
  moreover have "\<forall>h dims st'. h \<in> set (pending st') \<longrightarrow>
            loader_step (ImageLoaded h dims) st' = Some (imageOnload h dims st') \<and>
            arrayGet (images (imageOnload h dims st')) (fst h)
              = Some \<lparr>img_src = snd h, img_width = fst dims, img_height = snd dims\<rparr>"
  proof (intro allI impI)
    fix h :: "nat \<times> string" and dims :: "real \<times> real" and st' :: loader
    assume "h \<in> set (pending st')"
    then have "loader_step (ImageLoaded h dims) st' = Some (imageOnload h dims st')"
      by (simp add: loader_step_def)
    moreover have "arrayGet (images (imageOnload h dims st')) (fst h)
              = Some \<lparr>img_src = snd h, img_width = fst dims, img_height = snd dims\<rparr>"
      using imageOnload_commits [of "fst h" "snd h" dims st'] by simp
    ultimately show "loader_step (ImageLoaded h dims) st' = Some (imageOnload h dims st') \<and>
            arrayGet (images (imageOnload h dims st')) (fst h)
              = Some \<lparr>img_src = snd h, img_width = fst dims, img_height = snd dims\<rparr>"
      by blast
  qed
  moreover note loadEffect_clears [OF assms, of st] loadEffect_registers [OF assms, of st]
  ultimately show ?thesis
    by blast
qed

text \<open>
  Slot 0 is given the source \<open>blob:a\<close> and then the source \<open>blob:b\<close> before either has
  loaded; \<open>blob:b\<close> loads first, \<open>blob:a\<close> afterwards. The completion for the superseded
  \<open>blob:a\<close> is accepted and slot 0 ends up holding the image of \<open>blob:a\<close>.
\<close>

theorem superseded_load_is_committed:
  "loader_run
     [SourcesChanged [''blob:a'', ''/default-second.svg''],
      SourcesChanged [''blob:b'', ''/default-second.svg''],
      ImageLoaded (0, ''blob:b'') (800, 600)]
     (loadEffect [''/default-first.svg'', ''/default-second.svg''] loader_init)
   = Some \<lparr>images = [Some \<lparr>img_src = ''blob:b'', img_width = 800, img_height = 600\<rparr>, None],
            pending = [(0, ''/default-first.svg''), (1, ''/default-second.svg''),
                       (0, ''blob:a''), (1, ''/default-second.svg''),
                       (1, ''/default-second.svg'')]\<rparr>
   \<and>
   loader_run
     [SourcesChanged [''blob:a'', ''/default-second.svg''],
      SourcesChanged [''blob:b'', ''/default-second.svg''],
      ImageLoaded (0, ''blob:b'') (800, 600),
      ImageLoaded (0, ''blob:a'') (640, 480)]
     (loadEffect [''/default-first.svg'', ''/default-second.svg''] loader_init)
   = Some \<lparr>images = [Some \<lparr>img_src = ''blob:a'', img_width = 640, img_height = 480\<rparr>, None],
            pending = [(0, ''/default-first.svg''), (1, ''/default-second.svg''),
                       (1, ''/default-second.svg''), (1, ''/default-second.svg'')]\<rparr>"
  by (simp add: loader_init_def loader_step_def loadEffect_def startLoad_def imageOnload_def
        arraySet_def)

theorem load_completion_is_always_committed_witness:
  "(0::nat) < length [''blob:b'', ''/default-second.svg''] \<and>
   arrayGet (images (loadEffect [''blob:b'', ''/default-second.svg'']
       (loadEffect [''blob:a'', ''/default-second.svg''] loader_init))) 0 = None \<and>
   (0, ''blob:a'') \<in> set (pending (loadEffect [''blob:b'', ''/default-second.svg'']
       (loadEffect [''blob:a'', ''/default-second.svg''] loader_init))) \<and>
   arrayGet (images (imageOnload (0, ''blob:a'') (640, 480)
       (loadEffect [''blob:b'', ''/default-second.svg'']
         (loadEffect [''blob:a'', ''/default-second.svg''] loader_init)))) 0
     = Some \<lparr>img_src = ''blob:a'', img_width = 640, img_height = 480\<rparr>"
proof -
  have h: "(0::nat) < length [''blob:b'', ''/default-second.svg'']"
    by simp
  have a: "(0, ''blob:a'') \<in> set (pending (loadEffect [''blob:a'', ''/default-second.svg''] loader_init))"
    by (simp add: loadEffect_def startLoad_def loader_init_def)
  note t = load_completion_is_always_committed
             [OF h, of "loadEffect [''blob:a'', ''/default-second.svg''] loader_init"]
  from t have clr: "arrayGet (images (loadEffect [''blob:b'', ''/default-second.svg'']
       (loadEffect [''blob:a'', ''/default-second.svg''] loader_init))) 0 = None"
    by blast
  from t a have out: "(0, ''blob:a'') \<in> set (pending (loadEffect [''blob:b'', ''/default-second.svg'']
       (loadEffect [''blob:a'', ''/default-second.svg''] loader_init)))"
    by blast
  from t out have "arrayGet (images (imageOnload (0, ''blob:a'') (640, 480)
       (loadEffect [''blob:b'', ''/default-second.svg'']
         (loadEffect [''blob:a'', ''/default-second.svg''] loader_init)))) (fst (0::nat, ''blob:a''))
     = Some \<lparr>img_src = snd (0::nat, ''blob:a''), img_width = fst (640::real, 480::real),
             img_height = snd (640::real, 480::real)\<rparr>"
    by blast
  with h clr out show ?thesis
    by simp
qed

section \<open>Start guard\<close>

lemma startTransition_running: "isAnimatingRef st \<Longrightarrow> startTransition cl st = st"
  by (simp add: startTransition_def)

lemma startTransition_unresolved:
  "arrayGet (cl_images cl) (cl_activeIndex cl) = None
     \<or> arrayGet (cl_images cl) (if cl_activeIndex cl = 0 then 1 else 0) = None
   \<Longrightarrow> startTransition cl st = st"
  by (auto simp add: startTransition_def Let_def)

lemma cancelAnimation_fields [simp]:
  "activeIndex (cancelAnimation st) = activeIndex st"
  "isAnimating (cancelAnimation st) = isAnimating st"
  "isAnimatingRef (cancelAnimation st) = isAnimatingRef st"
  "transitionRef (cancelAnimation st) = transitionRef st"
  "startTimestampRef (cancelAnimation st) = startTimestampRef st"
  "ctxRef (cancelAnimation st) = ctxRef st"
  "viewportRef (cancelAnimation st) = viewportRef st"
  "prop_images (cancelAnimation st) = prop_images st"
  "prop_duration (cancelAnimation st) = prop_duration st"
  "prop_featherSeeds (cancelAnimation st) = prop_featherSeeds st"
  "rafCounter (cancelAnimation st) = rafCounter st"
  by (simp_all add: cancelAnimation_def cancelAnimationFrame_def split: option.splits)


lemma requestAnimationFrame_simps [simp]:
  "fst (requestAnimationFrame cb st) = Suc (rafCounter st)"
  "snd (requestAnimationFrame cb st)
     = st\<lparr>rafCounter := Suc (rafCounter st), rafQueue := rafQueue st @ [(Suc (rafCounter st), cb)]\<rparr>"
  by (simp_all add: requestAnimationFrame_def Let_def)

lemma startTransition_start:
  assumes "\<not> isAnimatingRef st"
    and "arrayGet (cl_images cl) (cl_activeIndex cl) \<noteq> None"
    and "arrayGet (cl_images cl) (if cl_activeIndex cl = 0 then 1 else 0) \<noteq> None"
  shows "startTransition cl st =
           (snd (requestAnimationFrame cl
                  (cancelAnimation
                    (st\<lparr>transitionRef := \<lparr>tr_from = cl_activeIndex cl,
                                             tr_to = (if cl_activeIndex cl = 0 then 1 else 0)\<rparr>,
                        isAnimatingRef := True,
                        isAnimating := True,
                        startTimestampRef := 0\<rparr>))))
           \<lparr>animationFrameRef := Some (Suc (rafCounter st))\<rparr>"
proof -
  have "startTransition cl st =
          (case requestAnimationFrame cl
                    (cancelAnimation
                      (st\<lparr>transitionRef := \<lparr>tr_from = cl_activeIndex cl,
                                               tr_to = (if cl_activeIndex cl = 0 then 1 else 0)\<rparr>,
                          isAnimatingRef := True,
                          isAnimating := True,
                          startTimestampRef := 0\<rparr>)) of
               (h, st') \<Rightarrow> st'\<lparr>animationFrameRef := Some h\<rparr>)"
    unfolding startTransition_def Let_def using assms by (simp only: if_False HOL.simp_thms)
  then show ?thesis
    by (simp add: case_prod_beta)
qed

lemma startTransition_started:
  assumes "\<not> isAnimatingRef st"
    and "arrayGet (cl_images cl) (cl_activeIndex cl) \<noteq> None"
    and "arrayGet (cl_images cl) (if cl_activeIndex cl = 0 then 1 else 0) \<noteq> None"
  shows "isAnimatingRef (startTransition cl st)"
    and "isAnimating (startTransition cl st)"
    and "transitionRef (startTransition cl st)
           = \<lparr>tr_from = cl_activeIndex cl, tr_to = (if cl_activeIndex cl = 0 then 1 else 0)\<rparr>"
    and "activeIndex (startTransition cl st) = activeIndex st"
    and "animationFrameRef (startTransition cl st) = Some (Suc (rafCounter st))"
  by (simp_all add: startTransition_start [OF assms])

text \<open>
  Claim C3. A start request leaves the whole scheduler state as it is when the
  scheduler is already running, and also when the slot of the active index or the slot
  of the other index is unresolved. A start request turns an idle scheduler into a
  running one exactly when both slots are resolved; the run then goes from the active
  index to the other one.
\<close>

theorem startTransition_guard:
  "(isAnimatingRef st \<longrightarrow> startTransition cl st = st) \<and>
   (arrayGet (cl_images cl) (cl_activeIndex cl) = None
      \<or> arrayGet (cl_images cl) (if cl_activeIndex cl = 0 then 1 else 0) = None
    \<longrightarrow> startTransition cl st = st) \<and>
   (\<not> isAnimatingRef st \<longrightarrow>
      (isAnimatingRef (startTransition cl st)
       \<longleftrightarrow> arrayGet (cl_images cl) (cl_activeIndex cl) \<noteq> None
           \<and> arrayGet (cl_images cl) (if cl_activeIndex cl = 0 then 1 else 0) \<noteq> None)) \<and>
   (\<not> isAnimatingRef st \<and> isAnimatingRef (startTransition cl st) \<longrightarrow>
      isAnimating (startTransition cl st)
      \<and> transitionRef (startTransition cl st)
          = \<lparr>tr_from = cl_activeIndex cl, tr_to = (if cl_activeIndex cl = 0 then 1 else 0)\<rparr>
      \<and> activeIndex (startTransition cl st) = activeIndex st)"
proof (intro conjI impI)
  assume "isAnimatingRef st"
  then show "startTransition cl st = st"
    by (rule startTransition_running)
next
  assume "arrayGet (cl_images cl) (cl_activeIndex cl) = None
            \<or> arrayGet (cl_images cl) (if cl_activeIndex cl = 0 then 1 else 0) = None"
  then show "startTransition cl st = st"
    by (rule startTransition_unresolved)
next
  assume idle: "\<not> isAnimatingRef st"
  show "isAnimatingRef (startTransition cl st)
        \<longleftrightarrow> arrayGet (cl_images cl) (cl_activeIndex cl) \<noteq> None
            \<and> arrayGet (cl_images cl) (if cl_activeIndex cl = 0 then 1 else 0) \<noteq> None"
  proof
    assume run: "isAnimatingRef (startTransition cl st)"
    show "arrayGet (cl_images cl) (cl_activeIndex cl) \<noteq> None
            \<and> arrayGet (cl_images cl) (if cl_activeIndex cl = 0 then 1 else 0) \<noteq> None"
    proof (rule ccontr)
      assume "\<not> ?thesis"
      then have "startTransition cl st = st"
        by (intro startTransition_unresolved) blast
      with run idle show False by simp
    qed
  next
    assume "arrayGet (cl_images cl) (cl_activeIndex cl) \<noteq> None
              \<and> arrayGet (cl_images cl) (if cl_activeIndex cl = 0 then 1 else 0) \<noteq> None"
    with idle show "isAnimatingRef (startTransition cl st)"
      by (simp add: startTransition_started(1))
  qed
next
  assume a: "\<not> isAnimatingRef st \<and> isAnimatingRef (startTransition cl st)"
  have res: "arrayGet (cl_images cl) (cl_activeIndex cl) \<noteq> None
               \<and> arrayGet (cl_images cl) (if cl_activeIndex cl = 0 then 1 else 0) \<noteq> None"
  proof (rule ccontr)
    assume "\<not> ?thesis"
    then have "startTransition cl st = st"
      by (intro startTransition_unresolved) blast
    with a show False by simp
  qed
  with a show "isAnimating (startTransition cl st)"
    by (simp add: startTransition_started(2))
  from a res show "transitionRef (startTransition cl st)
          = \<lparr>tr_from = cl_activeIndex cl, tr_to = (if cl_activeIndex cl = 0 then 1 else 0)\<rparr>"
    by (simp add: startTransition_started(3))
  from a res show "activeIndex (startTransition cl st) = activeIndex st"
    by (simp add: startTransition_started(4))
qed

lemma engine_init_idle: "\<not> isAnimatingRef engine_init"
  by (simp add: engine_init_def)

theorem startTransition_guard_witness:
  "\<not> isAnimatingRef engine_init \<and>
   arrayGet (cl_images bothLoaded) (cl_activeIndex bothLoaded) = Some firstImage \<and>
   arrayGet (cl_images bothLoaded) (if cl_activeIndex bothLoaded = 0 then 1 else 0) = Some secondImage \<and>
   isAnimatingRef (startTransition bothLoaded engine_init) \<and>
   isAnimating (startTransition bothLoaded engine_init) \<and>
   transitionRef (startTransition bothLoaded engine_init) = \<lparr>tr_from = 0, tr_to = 1\<rparr> \<and>
   startTransition bothLoaded (startTransition bothLoaded engine_init)
     = startTransition bothLoaded engine_init \<and>
   arrayGet (cl_images secondMissing) (if cl_activeIndex secondMissing = 0 then 1 else 0) = None \<and>
   startTransition secondMissing engine_init = engine_init"
proof -
  have r: "arrayGet (cl_images bothLoaded) (cl_activeIndex bothLoaded) = Some firstImage"
          "arrayGet (cl_images bothLoaded) (if cl_activeIndex bothLoaded = 0 then 1 else 0) = Some secondImage"
          "arrayGet (cl_images secondMissing) (if cl_activeIndex secondMissing = 0 then 1 else 0) = None"
          "cl_activeIndex bothLoaded = 0"
    by (simp_all add: bothLoaded_def secondMissing_def arrayGet_def)
  from startTransition_guard [of engine_init bothLoaded]
       startTransition_guard [of "startTransition bothLoaded engine_init" bothLoaded]
       startTransition_guard [of engine_init secondMissing]
       engine_init_idle r
  show ?thesis
    by simp
qed

section \<open>Early returns of the draw operations\<close>

text \<open>
  With a context, a viewport of non-zero size and the images it needs, each draw
  operation starts by clearing the surface, so the early returns below are the only way
  for a draw to leave the surface alone.
\<close>

lemma drawStatic_clears:
  assumes "ctxRef st = Some ctx"
    and "vp_width (viewportRef st) \<noteq> 0" and "vp_height (viewportRef st) \<noteq> 0"
  shows "\<exists>calls. ctxRef (drawStatic cl st)
           = Some (ctx @ ClearRect 0 0 (vp_width (viewportRef st)) (vp_height (viewportRef st)) # calls)"
  using assms
  by (simp add: drawStatic_def Let_def split: option.splits)

lemma drawFrame_clears:
  assumes "ctxRef st = Some ctx"
    and "vp_width (viewportRef st) \<noteq> 0" and "vp_height (viewportRef st) \<noteq> 0"
    and "arrayGet (cl_images cl) (tr_from (transitionRef st)) = Some fromImage"
    and "arrayGet (cl_images cl) (tr_to (transitionRef st)) = Some toImage"
  shows "\<exists>calls. ctxRef (drawFrame cl progress st)
           = Some (ctx @ ClearRect 0 0 (vp_width (viewportRef st)) (vp_height (viewportRef st)) # calls)"
  using assms
  by (simp add: drawFrame_def Let_def)

text \<open>
  Claim C9. With a viewport of zero width or zero height the static draw and the
  transition-frame draw return the state they were given, for every progress and every
  slot contents: the context receives no call, and the model has no error branch to
  take.
\<close>

theorem draw_degenerate_viewport_noop:
  assumes "vp_width (viewportRef st) = 0 \<or> vp_height (viewportRef st) = 0"
  shows "drawStatic cl st = st \<and> drawFrame cl progress st = st"
  using assms
  by (auto simp add: drawStatic_def drawFrame_def Let_def split: option.splits)

lemma collapsed_viewport:
  "viewportRef (mountEffects collapsedPage engine_init) = \<lparr>vp_width = 0, vp_height = 600, dpr = 2\<rparr>"
  "ctxRef (mountEffects collapsedPage engine_init)
     = Some [SetCanvasSize 1 1200, ResetTransform, Scale 2 2]"
  by (simp_all add: mountEffects_def idleDraw_def resize_def ensureContext_def drawStatic_def
        contextCalls_def collapsedPage_def engine_init_def Let_def)

theorem draw_degenerate_viewport_noop_witness:
  "vp_width (viewportRef (mountEffects collapsedPage engine_init)) = 0 \<and>
   ctxRef (mountEffects collapsedPage engine_init)
     = Some [SetCanvasSize 1 1200, ResetTransform, Scale 2 2] \<and>
   drawStatic bothLoaded (mountEffects collapsedPage engine_init)
     = mountEffects collapsedPage engine_init \<and>
   drawFrame bothLoaded (1/2) (mountEffects collapsedPage engine_init)
     = mountEffects collapsedPage engine_init"
  using draw_degenerate_viewport_noop [of "mountEffects collapsedPage engine_init" bothLoaded "1/2"]
  by (simp add: collapsed_viewport)

section \<open>Scheduler runs\<close>

text \<open>The draw operations and the viewport code touch the context and the viewport only.\<close>

lemma drawStatic_fields [simp]:
  "activeIndex (drawStatic cl st) = activeIndex st"
  "isAnimating (drawStatic cl st) = isAnimating st"
  "animationFrameRef (drawStatic cl st) = animationFrameRef st"
  "startTimestampRef (drawStatic cl st) = startTimestampRef st"
  "transitionRef (drawStatic cl st) = transitionRef st"
  "isAnimatingRef (drawStatic cl st) = isAnimatingRef st"
  "prop_images (drawStatic cl st) = prop_images st"
  "prop_duration (drawStatic cl st) = prop_duration st"
  "prop_featherSeeds (drawStatic cl st) = prop_featherSeeds st"
  "rafQueue (drawStatic cl st) = rafQueue st"
  "rafCounter (drawStatic cl st) = rafCounter st"
  "viewportRef (drawStatic cl st) = viewportRef st"
  by (simp_all add: drawStatic_def Let_def split: option.splits)

lemma drawFrame_fields [simp]:
  "activeIndex (drawFrame cl progress st) = activeIndex st"
  "isAnimating (drawFrame cl progress st) = isAnimating st"
  "animationFrameRef (drawFrame cl progress st) = animationFrameRef st"
  "startTimestampRef (drawFrame cl progress st) = startTimestampRef st"
  "transitionRef (drawFrame cl progress st) = transitionRef st"
  "isAnimatingRef (drawFrame cl progress st) = isAnimatingRef st"
  "prop_images (drawFrame cl progress st) = prop_images st"
  "prop_duration (drawFrame cl progress st) = prop_duration st"
  "prop_featherSeeds (drawFrame cl progress st) = prop_featherSeeds st"
  "rafQueue (drawFrame cl progress st) = rafQueue st"
  "rafCounter (drawFrame cl progress st) = rafCounter st"
  "viewportRef (drawFrame cl progress st) = viewportRef st"
  by (simp_all add: drawFrame_def Let_def split: option.splits prod.splits)

lemma ensureContext_fields [simp]:
  "activeIndex (ensureContext d st) = activeIndex st"
  "isAnimating (ensureContext d st) = isAnimating st"
  "animationFrameRef (ensureContext d st) = animationFrameRef st"
  "startTimestampRef (ensureContext d st) = startTimestampRef st"
  "transitionRef (ensureContext d st) = transitionRef st"
  "isAnimatingRef (ensureContext d st) = isAnimatingRef st"
  "prop_images (ensureContext d st) = prop_images st"
  "prop_duration (ensureContext d st) = prop_duration st"
  "prop_featherSeeds (ensureContext d st) = prop_featherSeeds st"
  "rafQueue (ensureContext d st) = rafQueue st"
  "rafCounter (ensureContext d st) = rafCounter st"
  "viewportRef (ensureContext d st) = viewportRef st"
  by (simp_all add: ensureContext_def)

lemma resize_fields [simp]:
  "activeIndex (resize d st) = activeIndex st"
  "isAnimating (resize d st) = isAnimating st"
  "animationFrameRef (resize d st) = animationFrameRef st"
  "startTimestampRef (resize d st) = startTimestampRef st"
  "transitionRef (resize d st) = transitionRef st"
  "isAnimatingRef (resize d st) = isAnimatingRef st"
  "prop_images (resize d st) = prop_images st"
  "prop_duration (resize d st) = prop_duration st"
  "prop_featherSeeds (resize d st) = prop_featherSeeds st"
  "rafQueue (resize d st) = rafQueue st"
  "rafCounter (resize d st) = rafCounter st"
  by (simp_all add: resize_def Let_def split: option.splits prod.splits)

lemma currentRender_surface [simp]:
  "currentRender (drawStatic cl st) = currentRender st"
  "currentRender (drawFrame cl progress st) = currentRender st"
  "currentRender (ensureContext d st) = currentRender st"
  "currentRender (resize d st) = currentRender st"
  by (simp_all add: currentRender_def)

lemma idleDraw_fields [simp]:
  "activeIndex (idleDraw st) = activeIndex st"
  "isAnimating (idleDraw st) = isAnimating st"
  "animationFrameRef (idleDraw st) = animationFrameRef st"
  "startTimestampRef (idleDraw st) = startTimestampRef st"
  "transitionRef (idleDraw st) = transitionRef st"
  "isAnimatingRef (idleDraw st) = isAnimatingRef st"
  "prop_images (idleDraw st) = prop_images st"
  "prop_duration (idleDraw st) = prop_duration st"
  "prop_featherSeeds (idleDraw st) = prop_featherSeeds st"
  "rafQueue (idleDraw st) = rafQueue st"
  "rafCounter (idleDraw st) = rafCounter st"
  by (simp_all add: idleDraw_def)

lemma mountEffects_fields [simp]:
  "activeIndex (mountEffects d st) = activeIndex st"
  "isAnimating (mountEffects d st) = isAnimating st"
  "animationFrameRef (mountEffects d st) = animationFrameRef st"
  "startTimestampRef (mountEffects d st) = startTimestampRef st"
  "transitionRef (mountEffects d st) = transitionRef st"
  "isAnimatingRef (mountEffects d st) = isAnimatingRef st"
  "prop_images (mountEffects d st) = prop_images st"
  "prop_duration (mountEffects d st) = prop_duration st"
  "prop_featherSeeds (mountEffects d st) = prop_featherSeeds st"
  "rafQueue (mountEffects d st) = rafQueue st"
  "rafCounter (mountEffects d st) = rafCounter st"
  by (simp_all add: mountEffects_def)


lemma scheduler_inv_surface [simp]:
  "scheduler_inv (drawStatic cl st) = scheduler_inv st"
  "scheduler_inv (drawFrame cl progress st) = scheduler_inv st"
  "scheduler_inv (mountEffects d st) = scheduler_inv st"
  "scheduler_inv (resize d st) = scheduler_inv st"
  "scheduler_inv (idleDraw st) = scheduler_inv st"
  by (simp_all add: scheduler_inv_def)

text \<open>Cancelling and requesting frames.\<close>

lemma cancelAnimation_queue:
  "rafQueue (cancelAnimation st) =
     (case animationFrameRef st of
        None \<Rightarrow> rafQueue st
      | Some h \<Rightarrow> if h = 0 then rafQueue st else filter (\<lambda>(h', cb). h' \<noteq> h) (rafQueue st))"
  by (simp add: cancelAnimation_def cancelAnimationFrame_def split: option.splits)

lemma cancelAnimation_handle:
  "animationFrameRef (cancelAnimation st) =
     (case animationFrameRef st of None \<Rightarrow> None | Some h \<Rightarrow> if h = 0 then Some 0 else None)"
  by (simp add: cancelAnimation_def cancelAnimationFrame_def split: option.splits)

lemma cancelAnimationFrame_fields [simp]:
  "activeIndex (cancelAnimationFrame h st) = activeIndex st"
  "isAnimating (cancelAnimationFrame h st) = isAnimating st"
  "animationFrameRef (cancelAnimationFrame h st) = animationFrameRef st"
  "startTimestampRef (cancelAnimationFrame h st) = startTimestampRef st"
  "transitionRef (cancelAnimationFrame h st) = transitionRef st"
  "isAnimatingRef (cancelAnimationFrame h st) = isAnimatingRef st"
  "rafCounter (cancelAnimationFrame h st) = rafCounter st"
  "prop_duration (cancelAnimationFrame h st) = prop_duration st"
  "rafQueue (cancelAnimationFrame h st) = filter (\<lambda>(h', cb). h' \<noteq> h) (rafQueue st)"
  by (simp_all add: cancelAnimationFrame_def)

lemma inv_queue_cases:
  assumes "scheduler_inv st"
  shows "rafQueue st = []
         \<or> (\<exists>h cl. rafQueue st = [(h, cl)] \<and> isAnimatingRef st
                     \<and> animationFrameRef st = Some h \<and> 0 < h)"
proof (cases "rafQueue st")
  case Nil
  then show ?thesis by simp
next
  case (Cons p ps)
  with assms have "ps = []"
    by (simp add: scheduler_inv_def)
  obtain h cl where "p = (h, cl)"
    by (cases p)
  with Cons \<open>ps = []\<close> have q: "rafQueue st = [(h, cl)]"
    by simp
  with assms have "isAnimatingRef st \<and> animationFrameRef st = Some h \<and> 0 < h"
    by (simp add: scheduler_inv_def)
  with q show ?thesis
    by blast
qed

lemma inv_cancelAnimation_queue:
  assumes "scheduler_inv st"
  shows "rafQueue (cancelAnimation st) = []"
  using inv_queue_cases [OF assms]
  by (auto simp add: cancelAnimation_queue split: option.splits)

lemma inv_cancelAnimation:
  assumes "scheduler_inv st"
  shows "scheduler_inv (cancelAnimation st)"
  using assms inv_cancelAnimation_queue [OF assms]
  by (simp add: scheduler_inv_def)

lemma inv_cancelAnimationFrame_queue:
  assumes "scheduler_inv st" and "map_of (rafQueue st) h = Some cl"
  shows "rafQueue (cancelAnimationFrame h st) = []" and "isAnimatingRef st"
proof -
  from assms(2) have "(h, cl) \<in> set (rafQueue st)"
    by (rule map_of_SomeD)
  with inv_queue_cases [OF assms(1)] have q: "rafQueue st = [(h, cl)]" and r: "isAnimatingRef st"
    by auto
  from q show "rafQueue (cancelAnimationFrame h st) = []"
    by simp
  from r show "isAnimatingRef st" .
qed

text \<open>The scheduler fields after a start that passes its guards.\<close>

lemma startTransition_started_queue:
  assumes "\<not> isAnimatingRef st"
    and "arrayGet (cl_images cl) (cl_activeIndex cl) \<noteq> None"
    and "arrayGet (cl_images cl) (if cl_activeIndex cl = 0 then 1 else 0) \<noteq> None"
  shows "rafQueue (startTransition cl st)
           = rafQueue (cancelAnimation st) @ [(Suc (rafCounter st), cl)]"
  by (simp add: startTransition_start [OF assms] cancelAnimation_queue split: option.splits)

lemma startTransition_props [simp]:
  "prop_duration (startTransition cl st) = prop_duration st"
proof (cases "isAnimatingRef st
              \<or> arrayGet (cl_images cl) (cl_activeIndex cl) = None
              \<or> arrayGet (cl_images cl) (if cl_activeIndex cl = 0 then 1 else 0) = None")
  case True
  then have "startTransition cl st = st"
    using startTransition_running startTransition_unresolved by blast
  then show ?thesis by simp
next
  case False
  then have g: "\<not> isAnimatingRef st"
      "arrayGet (cl_images cl) (cl_activeIndex cl) \<noteq> None"
      "arrayGet (cl_images cl) (if cl_activeIndex cl = 0 then 1 else 0) \<noteq> None"
    by simp_all
  show ?thesis
    by (simp add: startTransition_start [OF g])
qed

lemma inv_startTransition:
  assumes inv: "scheduler_inv st" and cur: "cl = currentRender st"
  shows "scheduler_inv (startTransition cl st)"
proof (cases "isAnimatingRef st
              \<or> arrayGet (cl_images cl) (cl_activeIndex cl) = None
              \<or> arrayGet (cl_images cl) (if cl_activeIndex cl = 0 then 1 else 0) = None")
  case True
  then have "startTransition cl st = st"
    using startTransition_running startTransition_unresolved by blast
  with inv show ?thesis by simp
next
  case False
  then have g: "\<not> isAnimatingRef st"
      "arrayGet (cl_images cl) (cl_activeIndex cl) \<noteq> None"
      "arrayGet (cl_images cl) (if cl_activeIndex cl = 0 then 1 else 0) \<noteq> None"
    by simp_all
  have q: "rafQueue (startTransition cl st) = [(Suc (rafCounter st), cl)]"
    by (simp add: startTransition_started_queue [OF g] inv_cancelAnimation_queue [OF inv])
  from cur have c: "cl_activeIndex cl = activeIndex st" "cl_duration cl = prop_duration st"
    by (simp_all add: currentRender_def)
  from inv have "activeIndex st < 2" "800 \<le> prop_duration st" "prop_duration st \<le> 2400"
    by (simp_all add: scheduler_inv_def)
  with c q show ?thesis
    unfolding scheduler_inv_def
    by (simp add: startTransition_started [OF g])
qed

text \<open>The scheduler fields after a frame callback.\<close>

lemma animate_eq:
  "animate cl timestamp st =
    (let st1 = (if startTimestampRef st = 0 then st\<lparr>startTimestampRef := timestamp\<rparr> else st);
         st2 = drawFrame cl (frameProgress cl timestamp st) st1
     in if frameProgress cl timestamp st < 1 then
          (case requestAnimationFrame cl st2 of
             (h, st3) \<Rightarrow> st3\<lparr>animationFrameRef := Some h\<rparr>)
        else
          drawStatic cl
            (cancelAnimation
              (st2\<lparr>isAnimatingRef := False,
                   isAnimating := False,
                   activeIndex := tr_to (transitionRef st2),
                   startTimestampRef := 0\<rparr>)))"
  by (simp add: animate_def frameProgress_def Let_def)

lemma animate_continue:
  assumes "frameProgress cl timestamp st < 1"
  shows "activeIndex (animate cl timestamp st) = activeIndex st"
    and "isAnimating (animate cl timestamp st) = isAnimating st"
    and "isAnimatingRef (animate cl timestamp st) = isAnimatingRef st"
    and "transitionRef (animate cl timestamp st) = transitionRef st"
    and "animationFrameRef (animate cl timestamp st) = Some (Suc (rafCounter st))"
    and "rafQueue (animate cl timestamp st) = rafQueue st @ [(Suc (rafCounter st), cl)]"
  using assms
  by (simp_all add: animate_eq Let_def requestAnimationFrame_def)

lemma animate_complete:
  assumes "\<not> frameProgress cl timestamp st < 1"
  shows "activeIndex (animate cl timestamp st) = tr_to (transitionRef st)"
    and "isAnimating (animate cl timestamp st) = False"
    and "isAnimatingRef (animate cl timestamp st) = False"
    and "transitionRef (animate cl timestamp st) = transitionRef st"
    and "rafQueue (animate cl timestamp st) = rafQueue (cancelAnimation st)"
    and "startTimestampRef (animate cl timestamp st) = 0"
  using assms
  by (simp_all add: animate_eq Let_def cancelAnimation_queue split: option.splits)

lemma animate_transitionRef [simp]:
  "transitionRef (animate cl timestamp st) = transitionRef st"
  by (cases "frameProgress cl timestamp st < 1")
     (simp_all add: animate_continue(4) animate_complete(4))

lemma animate_props [simp]:
  "prop_duration (animate cl timestamp st) = prop_duration st"
  by (simp add: animate_eq Let_def requestAnimationFrame_def)


lemma frameProgress_cancelAnimationFrame [simp]:
  "frameProgress cl timestamp (cancelAnimationFrame h st) = frameProgress cl timestamp st"
  by (simp add: frameProgress_def)

lemma inv_cancelAnimationFrame:
  assumes "scheduler_inv st"
  shows "scheduler_inv (cancelAnimationFrame h st)"
proof -
  have len: "length (filter (\<lambda>(h', cb). h' \<noteq> h) (rafQueue st)) \<le> length (rafQueue st)"
    by (rule length_filter_le)
  from assms have "length (rafQueue st) \<le> 1"
    by (simp add: scheduler_inv_def)
  with len have "length (filter (\<lambda>(h', cb). h' \<noteq> h) (rafQueue st)) \<le> 1"
    by linarith
  with assms show ?thesis
    unfolding scheduler_inv_def by auto
qed

lemma inv_animate:
  assumes inv: "scheduler_inv st" and q: "rafQueue st = []" and run: "isAnimatingRef st"
    and dur: "800 \<le> cl_duration cl" "cl_duration cl \<le> 2400"
  shows "scheduler_inv (animate cl timestamp st)"
proof (cases "frameProgress cl timestamp st < 1")
  case True
  from inv q run dur show ?thesis
    unfolding scheduler_inv_def
    by (simp add: animate_continue [OF True])
next
  case False
  have "rafQueue (animate cl timestamp st) = []"
    by (simp add: animate_complete(5) [OF False] inv_cancelAnimation_queue [OF inv])
  with inv show ?thesis
    unfolding scheduler_inv_def
    by (simp add: animate_complete [OF False])
qed

lemma inv_rerenderEffects:
  "scheduler_inv st \<Longrightarrow> scheduler_inv (rerenderEffects d st)"
  by (simp add: rerenderEffects_def inv_cancelAnimation)

lemma rerenderEffects_fields [simp]:
  "activeIndex (rerenderEffects d st) = activeIndex st"
  "isAnimatingRef (rerenderEffects d st) = isAnimatingRef st"
  "transitionRef (rerenderEffects d st) = transitionRef st"
  by (simp_all add: rerenderEffects_def)

lemma handleResize_fields [simp]:
  "activeIndex (handleResize d st) = activeIndex st"
  "isAnimatingRef (handleResize d st) = isAnimatingRef st"
  "transitionRef (handleResize d st) = transitionRef st"
  "scheduler_inv (handleResize d st) = scheduler_inv st"
  by (simp_all add: handleResize_def)

text \<open>
  A frame that fires for a queued handle: it either keeps the run going or ends it and
  commits the target index.
\<close>

lemma fireFrame_idle:
  "map_of (rafQueue st) h = None \<Longrightarrow> fireFrame h timestamp d st = st"
  by (simp add: fireFrame_def)

lemma fireFrame_continue:
  assumes "map_of (rafQueue st) h = Some cl" and "frameProgress cl timestamp st < 1"
  shows "activeIndex (fireFrame h timestamp d st) = activeIndex st"
    and "isAnimatingRef (fireFrame h timestamp d st) = isAnimatingRef st"
    and "transitionRef (fireFrame h timestamp d st) = transitionRef st"
proof -
  have p: "frameProgress cl timestamp (cancelAnimationFrame h st) < 1"
    using assms(2) by simp
  show "activeIndex (fireFrame h timestamp d st) = activeIndex st"
    "isAnimatingRef (fireFrame h timestamp d st) = isAnimatingRef st"
    "transitionRef (fireFrame h timestamp d st) = transitionRef st"
    by (simp_all add: fireFrame_def assms(1) Let_def animate_continue [OF p])
qed

lemma fireFrame_complete:
  assumes "map_of (rafQueue st) h = Some cl" and "\<not> frameProgress cl timestamp st < 1"
  shows "activeIndex (fireFrame h timestamp d st) = tr_to (transitionRef st)"
    and "\<not> isAnimatingRef (fireFrame h timestamp d st)"
    and "transitionRef (fireFrame h timestamp d st) = transitionRef st"
proof -
  have p: "\<not> frameProgress cl timestamp (cancelAnimationFrame h st) < 1"
    using assms(2) by simp
  show "activeIndex (fireFrame h timestamp d st) = tr_to (transitionRef st)"
    "\<not> isAnimatingRef (fireFrame h timestamp d st)"
    "transitionRef (fireFrame h timestamp d st) = transitionRef st"
    by (simp_all add: fireFrame_def assms(1) Let_def animate_complete [OF p])
qed

lemma inv_fireFrame:
  assumes inv: "scheduler_inv st"
  shows "scheduler_inv (fireFrame h timestamp d st)"
proof (cases "map_of (rafQueue st) h")
  case None
  with inv show ?thesis
    by (simp add: fireFrame_idle)
next
  case (Some cl)
  note q = inv_cancelAnimationFrame_queue [OF inv Some]
  from Some have "(h, cl) \<in> set (rafQueue st)"
    by (rule map_of_SomeD)
  with inv have dur: "800 \<le> cl_duration cl" "cl_duration cl \<le> 2400"
    unfolding scheduler_inv_def by blast+
  have "scheduler_inv (animate cl timestamp (cancelAnimationFrame h st))"
    using inv_cancelAnimationFrame [OF inv] q dur
    by (intro inv_animate) simp_all
  then show ?thesis
    by (simp add: fireFrame_def Some Let_def inv_rerenderEffects)
qed

lemma inv_engine_step:
  assumes "scheduler_inv st"
  shows "scheduler_inv (engine_step st ev)"
proof (cases ev)
  case Trigger
  with assms show ?thesis
    by (simp add: engine_step_def inv_startTransition)
next
  case (Frame h timestamp d)
  with assms show ?thesis
    by (simp add: engine_step_def inv_fireFrame)
next
  case (ImagesChanged imgs d)
  from assms have "scheduler_inv (st\<lparr>prop_images := imgs\<rparr>)"
    by (simp add: scheduler_inv_def)
  with ImagesChanged show ?thesis
    by (simp add: engine_step_def inv_rerenderEffects)
next
  case (DurationChanged dur)
  with assms show ?thesis
    by (simp add: engine_step_def scheduler_inv_def)
qed (use assms in \<open>simp_all add: engine_step_def inv_cancelAnimation\<close>)

lemma inv_engine_init: "scheduler_inv engine_init"
  by (simp add: scheduler_inv_def engine_init_def)

lemma inv_foldl:
  "scheduler_inv st \<Longrightarrow> scheduler_inv (foldl engine_step st evs)"
  by (induction evs arbitrary: st) (simp_all add: inv_engine_step)

lemma inv_engine_run: "scheduler_inv (engine_run evs)"
  by (simp add: engine_run_def inv_foldl inv_engine_init)

lemma engine_run_snoc: "engine_run (evs @ [ev]) = engine_step (engine_run evs) ev"
  by (simp add: engine_run_def)

text \<open>
  The three kinds of step: one that leaves the active index, the running flag and the
  transition alone; a start; the end of a run.
\<close>

lemma engine_step_kinds:
  assumes inv: "scheduler_inv st"
  shows "(activeIndex (engine_step st ev) = activeIndex st
            \<and> isAnimatingRef (engine_step st ev) = isAnimatingRef st
            \<and> transitionRef (engine_step st ev) = transitionRef st)
         \<or> (ev = Trigger \<and> \<not> isAnimatingRef st \<and> isAnimatingRef (engine_step st ev)
            \<and> activeIndex (engine_step st ev) = activeIndex st
            \<and> transitionRef (engine_step st ev)
                = \<lparr>tr_from = activeIndex st, tr_to = 1 - activeIndex st\<rparr>)
         \<or> ((\<exists>h timestamp d. ev = Frame h timestamp d) \<and> isAnimatingRef st
            \<and> \<not> isAnimatingRef (engine_step st ev)
            \<and> activeIndex (engine_step st ev) = tr_to (transitionRef st)
            \<and> transitionRef (engine_step st ev) = transitionRef st)"
proof (cases ev)
  case (Mount d)
  then show ?thesis
    by (simp add: engine_step_def)
next
  case Trigger
  let ?cl = "currentRender st"
  show ?thesis
  proof (cases "isAnimatingRef st
                \<or> arrayGet (cl_images ?cl) (cl_activeIndex ?cl) = None
                \<or> arrayGet (cl_images ?cl) (if cl_activeIndex ?cl = 0 then 1 else 0) = None")
    case True
    then have "startTransition ?cl st = st"
      using startTransition_running startTransition_unresolved by blast
    with Trigger show ?thesis
      by (simp add: engine_step_def)
  next
    case False
    then have g: "\<not> isAnimatingRef st"
        "arrayGet (cl_images ?cl) (cl_activeIndex ?cl) \<noteq> None"
        "arrayGet (cl_images ?cl) (if cl_activeIndex ?cl = 0 then 1 else 0) \<noteq> None"
      by simp_all
    from inv have "activeIndex st < 2"
      by (simp add: scheduler_inv_def)
    then have "(if activeIndex st = 0 then 1 else 0) = 1 - activeIndex st"
      by auto
    moreover have "cl_activeIndex ?cl = activeIndex st"
      by (simp add: currentRender_def)
    ultimately show ?thesis
      using Trigger g(1) startTransition_started [OF g]
      by (simp add: engine_step_def)
  qed
next
  case (Frame h timestamp d)
  show ?thesis
  proof (cases "map_of (rafQueue st) h")
    case None
    with Frame show ?thesis
      by (simp add: engine_step_def fireFrame_idle)
  next
    case (Some cl)
    show ?thesis
    proof (cases "frameProgress cl timestamp st < 1")
      case True
      with Frame Some show ?thesis
        by (simp add: engine_step_def fireFrame_continue)
    next
      case False
      have "isAnimatingRef st"
        by (rule inv_cancelAnimationFrame_queue(2) [OF inv Some])
      with Frame fireFrame_complete [OF Some False] show ?thesis
        by (simp add: engine_step_def)
    qed
  qed
next
  case (ImagesChanged imgs d)
  then show ?thesis
    by (simp add: engine_step_def)
next
  case (DurationChanged dur)
  then show ?thesis
    by (simp add: engine_step_def)
next
  case (WindowResize d)
  then show ?thesis
    by (simp add: engine_step_def)
next
  case Unmount
  then show ?thesis
    by (simp add: engine_step_def)
qed

lemma inv_target_is_other_index:
  assumes "scheduler_inv st" and "isAnimatingRef st"
  shows "tr_to (transitionRef st) = 1 - activeIndex st"
  using assms unfolding scheduler_inv_def by auto

text \<open>
  Claim C4. In every state \<open>s\<close> the component reaches, the transition's two indices are
  0 or 1 and differ, and so is the active index 0 or 1. A step changes the transition
  only when it is a start from idle, which sets it to go from the active index to the
  other index; during a run and at its end the transition stays as set. A frame at
  which progress has reached 1 ends the run and sets the active index to the
  transition's target. Whenever a step ends a run, the new active index is the target
  and is the other index than before; the active index changes at no other step. So
  completed runs alternate it between 0 and 1.
\<close>

theorem transition_set_at_start_and_committed_on_completion:
  assumes "s = engine_run evs" and "s' = engine_step s ev"
  shows "tr_from (transitionRef s) \<noteq> tr_to (transitionRef s) \<and>
         tr_from (transitionRef s) < 2 \<and> tr_to (transitionRef s) < 2 \<and>
         activeIndex s < 2 \<and>
         (isAnimatingRef s \<or> ev \<noteq> Trigger \<longrightarrow> transitionRef s' = transitionRef s) \<and>
         (\<not> isAnimatingRef s \<and> isAnimatingRef s' \<longrightarrow>
            ev = Trigger \<and>
            transitionRef s' = \<lparr>tr_from = activeIndex s, tr_to = 1 - activeIndex s\<rparr>) \<and>
         (map_of (rafQueue s) h = Some cl \<and> \<not> frameProgress cl timestamp s < 1 \<longrightarrow>
            \<not> isAnimatingRef (engine_step s (Frame h timestamp d)) \<and>
            activeIndex (engine_step s (Frame h timestamp d)) = tr_to (transitionRef s)) \<and>
         (isAnimatingRef s \<and> \<not> isAnimatingRef s' \<longrightarrow>
            activeIndex s' = tr_to (transitionRef s) \<and> activeIndex s' = 1 - activeIndex s) \<and>
         (activeIndex s' \<noteq> activeIndex s \<longrightarrow> isAnimatingRef s \<and> \<not> isAnimatingRef s')"
proof -
  have inv: "scheduler_inv s"
    unfolding assms(1) by (rule inv_engine_run)
  note kinds = engine_step_kinds [OF inv, of ev, folded assms(2)]
  have shape: "tr_from (transitionRef s) \<noteq> tr_to (transitionRef s)"
      "tr_from (transitionRef s) < 2" "tr_to (transitionRef s) < 2" "activeIndex s < 2"
    using inv by (simp_all add: scheduler_inv_def)
  have fixed: "isAnimatingRef s \<or> ev \<noteq> Trigger \<longrightarrow> transitionRef s' = transitionRef s"
    using kinds by blast
  have start: "\<not> isAnimatingRef s \<and> isAnimatingRef s' \<longrightarrow>
            ev = Trigger \<and>
            transitionRef s' = \<lparr>tr_from = activeIndex s, tr_to = 1 - activeIndex s\<rparr>"
    using kinds by blast
  have finish: "map_of (rafQueue s) h = Some cl \<and> \<not> frameProgress cl timestamp s < 1 \<longrightarrow>
            \<not> isAnimatingRef (engine_step s (Frame h timestamp d)) \<and>
            activeIndex (engine_step s (Frame h timestamp d)) = tr_to (transitionRef s)"
    by (simp add: engine_step_def fireFrame_complete)
  have flip: "isAnimatingRef s \<and> \<not> isAnimatingRef s' \<longrightarrow>
            activeIndex s' = tr_to (transitionRef s) \<and> activeIndex s' = 1 - activeIndex s"
    using kinds inv_target_is_other_index [OF inv] by metis
  have only: "activeIndex s' \<noteq> activeIndex s \<longrightarrow> isAnimatingRef s \<and> \<not> isAnimatingRef s'"
    using kinds by blast
  from shape fixed start finish flip only show ?thesis
    by blast
qed

lemma ready_state:
  "activeIndex (engine_run readyEvents) = 0"
  "\<not> isAnimatingRef (engine_run readyEvents)"
  "transitionRef (engine_run readyEvents) = \<lparr>tr_from = 0, tr_to = 1\<rparr>"
  "rafQueue (engine_run readyEvents) = []"
  "rafCounter (engine_run readyEvents) = 0"
  "startTimestampRef (engine_run readyEvents) = 0"
  "currentRender (engine_run readyEvents) = firstRender"
  by (simp_all add: readyEvents_def engine_run_def engine_step_def rerenderEffects_def
        cancelAnimation_queue engine_init_def currentRender_def firstRender_def)

lemma started_state:
  "activeIndex (engine_step (engine_run readyEvents) Trigger) = 0"
  "isAnimatingRef (engine_step (engine_run readyEvents) Trigger)"
  "transitionRef (engine_step (engine_run readyEvents) Trigger) = \<lparr>tr_from = 0, tr_to = 1\<rparr>"
  "rafQueue (engine_step (engine_run readyEvents) Trigger) = [(1, firstRender)]"
  "rafCounter (engine_step (engine_run readyEvents) Trigger) = 1"
  "startTimestampRef (engine_step (engine_run readyEvents) Trigger) = 0"
proof -
  have g: "\<not> isAnimatingRef (engine_run readyEvents)"
      "arrayGet (cl_images firstRender) (cl_activeIndex firstRender) \<noteq> None"
      "arrayGet (cl_images firstRender) (if cl_activeIndex firstRender = 0 then 1 else 0) \<noteq> None"
    by (simp_all add: ready_state firstRender_def arrayGet_def)
  have c: "cl_activeIndex firstRender = 0"
    by (simp add: firstRender_def)
  show "activeIndex (engine_step (engine_run readyEvents) Trigger) = 0"
    "isAnimatingRef (engine_step (engine_run readyEvents) Trigger)"
    "transitionRef (engine_step (engine_run readyEvents) Trigger) = \<lparr>tr_from = 0, tr_to = 1\<rparr>"
    "rafQueue (engine_step (engine_run readyEvents) Trigger) = [(1, firstRender)]"
    "rafCounter (engine_step (engine_run readyEvents) Trigger) = 1"
    "startTimestampRef (engine_step (engine_run readyEvents) Trigger) = 0"
    using c
    by (simp_all add: engine_step_def ready_state startTransition_start [OF g]
          cancelAnimation_queue split: option.splits)
qed

lemma running_state:
  "activeIndex (engine_run runningEvents) = 0"
  "isAnimatingRef (engine_run runningEvents)"
  "transitionRef (engine_run runningEvents) = \<lparr>tr_from = 0, tr_to = 1\<rparr>"
  "rafQueue (engine_run runningEvents) = [(2, firstRender)]"
  "startTimestampRef (engine_run runningEvents) = 1000"
proof -
  have run: "engine_run runningEvents
               = fireFrame (Suc 0) 1000 stagePage (engine_step (engine_run readyEvents) Trigger)"
    by (simp add: runningEvents_def engine_run_def engine_step_def)
  have p: "frameProgress firstRender 1000
             (cancelAnimationFrame (Suc 0) (engine_step (engine_run readyEvents) Trigger)) < 1"
    by (simp add: frameProgress_def started_state clamp01_def)
  have an: "fireFrame (Suc 0) 1000 stagePage (engine_step (engine_run readyEvents) Trigger)
              = animate firstRender 1000
                  (cancelAnimationFrame (Suc 0) (engine_step (engine_run readyEvents) Trigger))"
    by (simp add: fireFrame_def started_state Let_def animate_continue(1) [OF p])
  show "activeIndex (engine_run runningEvents) = 0"
    "isAnimatingRef (engine_run runningEvents)"
    "transitionRef (engine_run runningEvents) = \<lparr>tr_from = 0, tr_to = 1\<rparr>"
    "rafQueue (engine_run runningEvents) = [(2, firstRender)]"
    by (simp_all add: run an animate_continue [OF p] started_state)
  show "startTimestampRef (engine_run runningEvents) = 1000"
    using p by (simp add: run an animate_eq Let_def requestAnimationFrame_def started_state)
qed

lemma last_frame_progress:
  "\<not> frameProgress firstRender 2400 (engine_run runningEvents) < 1"
  by (simp add: frameProgress_def running_state firstRender_def clamp01_def)


text \<open>
  A start from the ready state, and the frame at time 2400 that ends the run started
  there: 1400 ms after the first frame at time 1000, with the duration 1400.
\<close>

theorem transition_set_at_start_and_committed_on_completion_witness:
  "\<not> isAnimatingRef (engine_run readyEvents) \<and>
   isAnimatingRef (engine_step (engine_run readyEvents) Trigger) \<and>
   transitionRef (engine_step (engine_run readyEvents) Trigger) = \<lparr>tr_from = 0, tr_to = 1\<rparr> \<and>
   isAnimatingRef (engine_run runningEvents) \<and>
   activeIndex (engine_run runningEvents) = 0 \<and>
   map_of (rafQueue (engine_run runningEvents)) 2 = Some firstRender \<and>
   \<not> frameProgress firstRender 2400 (engine_run runningEvents) < 1 \<and>
   \<not> isAnimatingRef (engine_step (engine_run runningEvents) (Frame 2 2400 stagePage)) \<and>
   activeIndex (engine_step (engine_run runningEvents) (Frame 2 2400 stagePage)) = 1 \<and>
   transitionRef (engine_step (engine_run runningEvents) (Frame 2 2400 stagePage))
     = \<lparr>tr_from = 0, tr_to = 1\<rparr>"
proof -
  note start = transition_set_at_start_and_committed_on_completion
                 [OF refl refl, of readyEvents Trigger 0 firstRender 0 stagePage]
  note finish = transition_set_at_start_and_committed_on_completion
                  [OF refl refl, of runningEvents "Frame 2 2400 stagePage" 2 firstRender 2400 stagePage]
  have q: "map_of (rafQueue (engine_run runningEvents)) 2 = Some firstRender"
    by (simp add: running_state)
  from start ready_state(2) started_state(2)
  have a: "transitionRef (engine_step (engine_run readyEvents) Trigger)
             = \<lparr>tr_from = activeIndex (engine_run readyEvents),
                tr_to = 1 - activeIndex (engine_run readyEvents)\<rparr>"
    by blast
  from finish q last_frame_progress
  have b: "\<not> isAnimatingRef (engine_step (engine_run runningEvents) (Frame 2 2400 stagePage))"
    and c: "activeIndex (engine_step (engine_run runningEvents) (Frame 2 2400 stagePage))
             = tr_to (transitionRef (engine_run runningEvents))"
    by blast+
  from finish running_state(2)
  have d: "transitionRef (engine_step (engine_run runningEvents) (Frame 2 2400 stagePage))
             = transitionRef (engine_run runningEvents)"
    by blast
  from a b c d q last_frame_progress show ?thesis
    by (simp add: ready_state started_state(2) running_state)
qed

section \<open>No placeholder during a run\<close>

text \<open>Bookkeeping for the calls a step adds to the context.\<close>

lemma noPlaceholderAdded_append:
  "noPlaceholderAdded before (before @ calls) \<longleftrightarrow> filter isPlaceholderFill calls = []"
  by (simp add: noPlaceholderAdded_def)

lemma noPlaceholderAdded_refl: "noPlaceholderAdded calls calls"
  by (simp add: noPlaceholderAdded_def)

lemma noPlaceholderAdded_ex:
  "noPlaceholderAdded before after
     \<longleftrightarrow> (\<exists>calls. after = before @ calls \<and> filter isPlaceholderFill calls = [])"
proof
  assume a: "noPlaceholderAdded before after"
  have "after = take (length before) after @ drop (length before) after"
    by simp
  with a have "after = before @ drop (length before) after"
    by (simp add: noPlaceholderAdded_def)
  with a show "\<exists>calls. after = before @ calls \<and> filter isPlaceholderFill calls = []"
    unfolding noPlaceholderAdded_def by blast
next
  assume "\<exists>calls. after = before @ calls \<and> filter isPlaceholderFill calls = []"
  then show "noPlaceholderAdded before after"
    by (auto simp add: noPlaceholderAdded_append)
qed

lemma noPlaceholderAdded_trans:
  assumes "noPlaceholderAdded a b" and "noPlaceholderAdded b c"
  shows "noPlaceholderAdded a c"
proof -
  from assms obtain xs ys where "b = a @ xs" "filter isPlaceholderFill xs = []"
      "c = b @ ys" "filter isPlaceholderFill ys = []"
    unfolding noPlaceholderAdded_ex by blast
  then have "c = a @ (xs @ ys)" "filter isPlaceholderFill (xs @ ys) = []"
    by simp_all
  then show ?thesis
    unfolding noPlaceholderAdded_ex by blast
qed

lemma contextCalls_same: "ctxRef st' = ctxRef st \<Longrightarrow> contextCalls st' = contextCalls st"
  by (simp add: contextCalls_def)

text \<open>None of the drawing helpers sets the placeholder style.\<close>

lemma clean_drawCoverImage [simp]:
  "filter isPlaceholderFill (drawCoverImage img width height) = []"
  by (simp add: drawCoverImage_def Let_def)

lemma clean_traceRavenPath [simp]:
  "filter isPlaceholderFill (traceRavenPath pts) = []"
  by (cases pts) (simp_all add: traceRavenPath_def filter_empty_conv)

lemma clean_drawFeather [simp]:
  "filter isPlaceholderFill (drawFeather progress width height baseSize baseX seed) = []"
  by (simp add: drawFeather_def Let_def)

lemma clean_concat_drawFeather:
  "filter isPlaceholderFill
     (concat (map (drawFeather progress width height baseSize baseX) seeds)) = []"
  by (induction seeds) simp_all

lemma clean_drawFeathers [simp]:
  "filter isPlaceholderFill (drawFeathers seeds progress width height geo) = []"
  by (simp add: drawFeathers_def Let_def clean_concat_drawFeather)

lemma clean_ensureContext:
  "contextCalls (ensureContext d st) = contextCalls st"
  by (simp add: ensureContext_def contextCalls_def)

lemma clean_resize:
  "noPlaceholderAdded (contextCalls st) (contextCalls (resize d st))"
  by (simp add: resize_def Let_def contextCalls_def noPlaceholderAdded_refl
        noPlaceholderAdded_append split: option.splits prod.splits)

lemma clean_drawFrame:
  "noPlaceholderAdded (contextCalls st) (contextCalls (drawFrame cl progress st))"
  by (simp add: drawFrame_def Let_def contextCalls_def noPlaceholderAdded_refl
        noPlaceholderAdded_append split: option.splits prod.splits)

lemma clean_drawStatic:
  assumes "arrayGet (cl_images cl) (cl_activeIndex cl) \<noteq> None"
  shows "noPlaceholderAdded (contextCalls st) (contextCalls (drawStatic cl st))"
  using assms
  by (auto simp add: drawStatic_def Let_def contextCalls_def noPlaceholderAdded_refl
        noPlaceholderAdded_append split: option.splits)

text \<open>The effects and the frame callback.\<close>

lemma contextCalls_scheduler [simp]:
  "contextCalls (cancelAnimation st) = contextCalls st"
  "contextCalls (cancelAnimationFrame h st) = contextCalls st"
  by (simp_all add: contextCalls_def cancelAnimationFrame_def)

lemma startTransition_surface [simp]:
  "ctxRef (startTransition cl st) = ctxRef st"
  "prop_images (startTransition cl st) = prop_images st"
proof -
  show "ctxRef (startTransition cl st) = ctxRef st"
  proof (cases "isAnimatingRef st
                \<or> arrayGet (cl_images cl) (cl_activeIndex cl) = None
                \<or> arrayGet (cl_images cl) (if cl_activeIndex cl = 0 then 1 else 0) = None")
    case True
    then have "startTransition cl st = st"
      using startTransition_running startTransition_unresolved by blast
    then show ?thesis by simp
  next
    case False
    then have g: "\<not> isAnimatingRef st"
        "arrayGet (cl_images cl) (cl_activeIndex cl) \<noteq> None"
        "arrayGet (cl_images cl) (if cl_activeIndex cl = 0 then 1 else 0) \<noteq> None"
      by simp_all
    show ?thesis
      by (simp add: startTransition_start [OF g])
  qed
  show "prop_images (startTransition cl st) = prop_images st"
  proof (cases "isAnimatingRef st
                \<or> arrayGet (cl_images cl) (cl_activeIndex cl) = None
                \<or> arrayGet (cl_images cl) (if cl_activeIndex cl = 0 then 1 else 0) = None")
    case True
    then have "startTransition cl st = st"
      using startTransition_running startTransition_unresolved by blast
    then show ?thesis by simp
  next
    case False
    then have g: "\<not> isAnimatingRef st"
        "arrayGet (cl_images cl) (cl_activeIndex cl) \<noteq> None"
        "arrayGet (cl_images cl) (if cl_activeIndex cl = 0 then 1 else 0) \<noteq> None"
      by simp_all
    show ?thesis
      by (simp add: startTransition_start [OF g])
  qed
qed

lemma animate_images [simp]:
  "prop_images (animate cl timestamp st) = prop_images st"
  by (simp add: animate_eq Let_def requestAnimationFrame_def)

lemma idleDraw_running: "isAnimatingRef st \<Longrightarrow> idleDraw st = st"
  by (simp add: idleDraw_def)

lemma clean_idleDraw:
  assumes "isAnimatingRef st \<or> arrayGet (prop_images st) (activeIndex st) \<noteq> None"
  shows "noPlaceholderAdded (contextCalls st) (contextCalls (idleDraw st))"
proof (cases "isAnimatingRef st")
  case True
  then show ?thesis
    by (simp add: idleDraw_running noPlaceholderAdded_refl)
next
  case False
  with assms have "arrayGet (cl_images (currentRender st)) (cl_activeIndex (currentRender st)) \<noteq> None"
    by (simp add: currentRender_def)
  with False show ?thesis
    by (simp add: idleDraw_def clean_drawStatic)
qed

lemma clean_mountEffects:
  assumes "isAnimatingRef st \<or> arrayGet (prop_images st) (activeIndex st) \<noteq> None"
  shows "noPlaceholderAdded (contextCalls st) (contextCalls (mountEffects d st))"
proof -
  have "noPlaceholderAdded (contextCalls (ensureContext d st))
          (contextCalls (resize d (ensureContext d st)))"
    by (rule clean_resize)
  then have a: "noPlaceholderAdded (contextCalls st) (contextCalls (resize d (ensureContext d st)))"
    by (simp add: clean_ensureContext)
  have "noPlaceholderAdded (contextCalls (resize d (ensureContext d st)))
          (contextCalls (idleDraw (resize d (ensureContext d st))))"
    using assms by (intro clean_idleDraw) simp
  with a show ?thesis
    unfolding mountEffects_def by (rule noPlaceholderAdded_trans)
qed

lemma clean_rerenderEffects:
  assumes "isAnimatingRef st \<or> arrayGet (prop_images st) (activeIndex st) \<noteq> None"
  shows "noPlaceholderAdded (contextCalls st) (contextCalls (rerenderEffects d st))"
proof -
  have "noPlaceholderAdded (contextCalls (cancelAnimation st))
          (contextCalls (mountEffects d (cancelAnimation st)))"
    using assms by (intro clean_mountEffects) simp
  then show ?thesis
    by (simp add: rerenderEffects_def)
qed

lemma clean_animate:
  assumes "arrayGet (cl_images cl) (cl_activeIndex cl) \<noteq> None"
  shows "noPlaceholderAdded (contextCalls st) (contextCalls (animate cl timestamp st))"
proof -
  define st1 where "st1 = (if startTimestampRef st = 0 then st\<lparr>startTimestampRef := timestamp\<rparr> else st)"
  define st2 where "st2 = drawFrame cl (frameProgress cl timestamp st) st1"
  have c1: "contextCalls st1 = contextCalls st"
    by (simp add: st1_def contextCalls_def)
  have "noPlaceholderAdded (contextCalls st1) (contextCalls st2)"
    unfolding st2_def by (rule clean_drawFrame)
  then have a: "noPlaceholderAdded (contextCalls st) (contextCalls st2)"
    by (simp add: c1)
  show ?thesis
  proof (cases "frameProgress cl timestamp st < 1")
    case True
    then have "ctxRef (animate cl timestamp st) = ctxRef st2"
      by (simp add: animate_eq Let_def requestAnimationFrame_def st1_def st2_def)
    then have "contextCalls (animate cl timestamp st) = contextCalls st2"
      by (rule contextCalls_same)
    with a show ?thesis by simp
  next
    case False
    define st3 where "st3 = cancelAnimation
                (st2\<lparr>isAnimatingRef := False,
                     isAnimating := False,
                     activeIndex := tr_to (transitionRef st2),
                     startTimestampRef := 0\<rparr>)"
    have c3: "contextCalls st3 = contextCalls st2"
      by (simp add: st3_def contextCalls_def)
    from False have "animate cl timestamp st = drawStatic cl st3"
      by (simp add: animate_eq Let_def st1_def st2_def st3_def)
    moreover have "noPlaceholderAdded (contextCalls st3) (contextCalls (drawStatic cl st3))"
      using assms by (rule clean_drawStatic)
    ultimately have "noPlaceholderAdded (contextCalls st2) (contextCalls (animate cl timestamp st))"
      by (simp add: c3)
    with a show ?thesis
      by (rule noPlaceholderAdded_trans)
  qed
qed

text \<open>Every requested frame belongs to a render that has both images of the transition.\<close>

lemma frames_inv_empty: "rafQueue st = [] \<Longrightarrow> frames_inv st"
  by (simp add: frames_inv_def)

lemma frames_invD:
  assumes "frames_inv st" and "(h, cl) \<in> set (rafQueue st)"
  shows "cl_images cl = prop_images st"
    and "cl_activeIndex cl = activeIndex st"
    and "arrayGet (cl_images cl) (tr_from (transitionRef st)) \<noteq> None"
    and "arrayGet (cl_images cl) (tr_to (transitionRef st)) \<noteq> None"
  using assms unfolding frames_inv_def by blast+

lemma frames_invI:
  assumes "\<And>h cl. (h, cl) \<in> set (rafQueue st) \<Longrightarrow>
             cl_images cl = prop_images st \<and>
             cl_activeIndex cl = activeIndex st \<and>
             arrayGet (cl_images cl) (tr_from (transitionRef st)) \<noteq> None \<and>
             arrayGet (cl_images cl) (tr_to (transitionRef st)) \<noteq> None"
  shows "frames_inv st"
  using assms unfolding frames_inv_def by blast

lemma frames_inv_same:
  assumes fr: "frames_inv st"
    and same: "rafQueue st' = rafQueue st" "prop_images st' = prop_images st"
      "activeIndex st' = activeIndex st" "transitionRef st' = transitionRef st"
  shows "frames_inv st'"
proof (rule frames_invI)
  fix h cl
  assume "(h, cl) \<in> set (rafQueue st')"
  then have "(h, cl) \<in> set (rafQueue st)"
    by (simp only: same)
  from frames_invD [OF fr this]
  show "cl_images cl = prop_images st' \<and>
        cl_activeIndex cl = activeIndex st' \<and>
        arrayGet (cl_images cl) (tr_from (transitionRef st')) \<noteq> None \<and>
        arrayGet (cl_images cl) (tr_to (transitionRef st')) \<noteq> None"
    by (simp only: same) blast
qed

lemma cancelAnimationFrame_images [simp]:
  "prop_images (cancelAnimationFrame h st) = prop_images st"
  by (simp add: cancelAnimationFrame_def)

lemma queued_closure:
  assumes inv: "scheduler_inv st" and fr: "frames_inv st"
    and q: "map_of (rafQueue st) h = Some cl"
  shows "cl_images cl = prop_images st"
    and "cl_activeIndex cl = activeIndex st"
    and "tr_from (transitionRef st) = activeIndex st"
    and "arrayGet (cl_images cl) (tr_from (transitionRef st)) \<noteq> None"
    and "arrayGet (cl_images cl) (tr_to (transitionRef st)) \<noteq> None"
    and "arrayGet (cl_images cl) (cl_activeIndex cl) \<noteq> None"
proof -
  from q have m: "(h, cl) \<in> set (rafQueue st)"
    by (rule map_of_SomeD)
  from frames_invD [OF fr m]
  show c: "cl_images cl = prop_images st" "cl_activeIndex cl = activeIndex st"
    and r: "arrayGet (cl_images cl) (tr_from (transitionRef st)) \<noteq> None"
      "arrayGet (cl_images cl) (tr_to (transitionRef st)) \<noteq> None"
    by blast+
  from inv_cancelAnimationFrame_queue(2) [OF inv q] inv
  show f: "tr_from (transitionRef st) = activeIndex st"
    by (simp add: scheduler_inv_def)
  from c r f show "arrayGet (cl_images cl) (cl_activeIndex cl) \<noteq> None"
    by simp
qed

lemma frames_inv_fireFrame:
  assumes inv: "scheduler_inv st" and fr: "frames_inv st"
  shows "frames_inv (fireFrame h timestamp d st)"
proof (cases "map_of (rafQueue st) h")
  case None
  with fr show ?thesis
    by (simp add: fireFrame_idle)
next
  case (Some cl)
  note cl = queued_closure [OF inv fr Some]
  have "rafQueue (cancelAnimationFrame h st) = []"
    by (rule inv_cancelAnimationFrame_queue(1) [OF inv Some])
  then have q0: "filter (\<lambda>(h', cb). h' \<noteq> h) (rafQueue st) = []"
    by simp
  show ?thesis
  proof (cases "frameProgress cl timestamp st < 1")
    case True
    then have p: "frameProgress cl timestamp (cancelAnimationFrame h st) < 1"
      by simp
    have same: "fireFrame h timestamp d st = animate cl timestamp (cancelAnimationFrame h st)"
      by (simp add: fireFrame_def Some Let_def animate_continue(1) [OF p])
    have "rafQueue (animate cl timestamp (cancelAnimationFrame h st))
            = [(Suc (rafCounter (cancelAnimationFrame h st)), cl)]"
      "prop_images (animate cl timestamp (cancelAnimationFrame h st)) = prop_images st"
      "activeIndex (animate cl timestamp (cancelAnimationFrame h st)) = activeIndex st"
      "transitionRef (animate cl timestamp (cancelAnimationFrame h st)) = transitionRef st"
      by (simp_all add: animate_continue [OF p] q0)
    with cl show ?thesis
      unfolding same by (intro frames_invI) simp
  next
    case False
    then have p: "\<not> frameProgress cl timestamp (cancelAnimationFrame h st) < 1"
      by simp
    have "rafQueue (animate cl timestamp (cancelAnimationFrame h st)) = []"
      by (simp add: animate_complete(5) [OF p] cancelAnimation_queue q0 split: option.splits)
    then have "rafQueue (fireFrame h timestamp d st) = []"
      by (simp add: fireFrame_def Some Let_def rerenderEffects_def cancelAnimation_queue
            split: option.splits)
    then show ?thesis
      by (rule frames_inv_empty)
  qed
qed

lemma frames_inv_startTransition:
  assumes inv: "scheduler_inv st" and fr: "frames_inv st"
  shows "frames_inv (startTransition (currentRender st) st)"
proof (cases "isAnimatingRef st
              \<or> arrayGet (cl_images (currentRender st)) (cl_activeIndex (currentRender st)) = None
              \<or> arrayGet (cl_images (currentRender st))
                   (if cl_activeIndex (currentRender st) = 0 then 1 else 0) = None")
  case True
  then have "startTransition (currentRender st) st = st"
    using startTransition_running startTransition_unresolved by blast
  with fr show ?thesis by simp
next
  case False
  then have g: "\<not> isAnimatingRef st"
      "arrayGet (cl_images (currentRender st)) (cl_activeIndex (currentRender st)) \<noteq> None"
      "arrayGet (cl_images (currentRender st))
         (if cl_activeIndex (currentRender st) = 0 then 1 else 0) \<noteq> None"
    by simp_all
  have q: "rafQueue (startTransition (currentRender st) st)
             = [(Suc (rafCounter st), currentRender st)]"
    by (simp add: startTransition_started_queue [OF g] inv_cancelAnimation_queue [OF inv])
  have c: "cl_images (currentRender st) = prop_images st"
      "cl_activeIndex (currentRender st) = activeIndex st"
    by (simp_all add: currentRender_def)
  have "transitionRef (startTransition (currentRender st) st)
          = \<lparr>tr_from = activeIndex st, tr_to = (if activeIndex st = 0 then 1 else 0)\<rparr>"
    "activeIndex (startTransition (currentRender st) st) = activeIndex st"
    "prop_images (startTransition (currentRender st) st) = prop_images st"
    using startTransition_started [OF g] by (simp_all add: c)
  with g q c show ?thesis
    by (intro frames_invI) simp
qed

lemma frames_inv_engine_step:
  assumes inv: "scheduler_inv st" and fr: "frames_inv st"
  shows "frames_inv (engine_step st ev)"
proof (cases ev)
  case (Mount d)
  have "frames_inv (mountEffects d st)"
    using fr by (rule frames_inv_same) simp_all
  with Mount show ?thesis
    by (simp add: engine_step_def)
next
  case Trigger
  then show ?thesis
    by (simp add: engine_step_def frames_inv_startTransition [OF inv fr])
next
  case (Frame h timestamp d)
  then show ?thesis
    by (simp add: engine_step_def frames_inv_fireFrame [OF inv fr])
next
  case (ImagesChanged imgs d)
  from inv have "scheduler_inv (st\<lparr>prop_images := imgs\<rparr>)"
    by (simp add: scheduler_inv_def)
  then have "rafQueue (cancelAnimation (st\<lparr>prop_images := imgs\<rparr>)) = []"
    by (rule inv_cancelAnimation_queue)
  then have "rafQueue (engine_step st ev) = []"
    by (simp add: ImagesChanged engine_step_def rerenderEffects_def)
  then show ?thesis
    by (rule frames_inv_empty)
next
  case (DurationChanged dur)
  have "frames_inv (st\<lparr>prop_duration := dur\<rparr>)"
    using fr by (rule frames_inv_same) simp_all
  with DurationChanged fr show ?thesis
    by (simp add: engine_step_def)
next
  case (WindowResize d)
  have "frames_inv (handleResize d st)"
    using fr by (rule frames_inv_same) (simp_all add: handleResize_def)
  with WindowResize show ?thesis
    by (simp add: engine_step_def)
next
  case Unmount
  have "rafQueue (cancelAnimation st) = []"
    by (rule inv_cancelAnimation_queue [OF inv])
  with Unmount show ?thesis
    by (simp add: engine_step_def frames_inv_empty)
qed

lemma invs_foldl:
  "scheduler_inv st \<Longrightarrow> frames_inv st
     \<Longrightarrow> scheduler_inv (foldl engine_step st evs) \<and> frames_inv (foldl engine_step st evs)"
  by (induction evs arbitrary: st) (simp_all add: inv_engine_step frames_inv_engine_step)

lemma frames_inv_engine_run: "frames_inv (engine_run evs)"
proof -
  have "frames_inv engine_init"
    by (simp add: frames_inv_def engine_init_def)
  with inv_engine_init show ?thesis
    unfolding engine_run_def by (simp add: invs_foldl)
qed

text \<open>A step taken during a run adds no placeholder fill.\<close>

lemma clean_fireFrame:
  assumes inv: "scheduler_inv st" and fr: "frames_inv st"
  shows "noPlaceholderAdded (contextCalls st) (contextCalls (fireFrame h timestamp d st))"
proof (cases "map_of (rafQueue st) h")
  case None
  then show ?thesis
    by (simp add: fireFrame_idle noPlaceholderAdded_refl)
next
  case (Some cl)
  note cl = queued_closure [OF inv fr Some]
  define st' where "st' = animate cl timestamp (cancelAnimationFrame h st)"
  have "noPlaceholderAdded (contextCalls (cancelAnimationFrame h st)) (contextCalls st')"
    unfolding st'_def using cl(6) by (rule clean_animate)
  then have a: "noPlaceholderAdded (contextCalls st) (contextCalls st')"
    by simp
  show ?thesis
  proof (cases "activeIndex st' \<noteq> activeIndex st")
    case False
    then have "fireFrame h timestamp d st = st'"
      by (simp add: fireFrame_def Some Let_def st'_def)
    with a show ?thesis by simp
  next
    case True
    then have ff: "fireFrame h timestamp d st = rerenderEffects d st'"
      by (simp add: fireFrame_def Some Let_def st'_def)
    have p: "\<not> frameProgress cl timestamp (cancelAnimationFrame h st) < 1"
    proof
      assume "frameProgress cl timestamp (cancelAnimationFrame h st) < 1"
      from animate_continue(1) [OF this] True show False
        by (simp add: st'_def)
    qed
    have "activeIndex st' = tr_to (transitionRef st)" "prop_images st' = prop_images st"
      by (simp_all add: st'_def animate_complete(1) [OF p])
    with cl have "arrayGet (prop_images st') (activeIndex st') \<noteq> None"
      by simp
    then have "noPlaceholderAdded (contextCalls st') (contextCalls (rerenderEffects d st'))"
      by (intro clean_rerenderEffects) simp
    with a show ?thesis
      unfolding ff by (rule noPlaceholderAdded_trans)
  qed
qed

lemma clean_engine_step:
  assumes inv: "scheduler_inv st" and fr: "frames_inv st"
    and run: "isAnimatingRef st \<or> isAnimatingRef (engine_step st ev)"
  shows "noPlaceholderAdded (contextCalls st) (contextCalls (engine_step st ev))"
proof (cases ev)
  case (Mount d)
  with run have "isAnimatingRef st"
    by (simp add: engine_step_def)
  with Mount show ?thesis
    by (simp add: engine_step_def clean_mountEffects)
next
  case Trigger
  have "contextCalls (startTransition (currentRender st) st) = contextCalls st"
    by (rule contextCalls_same) simp
  with Trigger show ?thesis
    by (simp add: engine_step_def noPlaceholderAdded_refl)
next
  case (Frame h timestamp d)
  then show ?thesis
    by (simp add: engine_step_def clean_fireFrame [OF inv fr])
next
  case (ImagesChanged imgs d)
  with run have r: "isAnimatingRef (st\<lparr>prop_images := imgs\<rparr>)"
    by (simp add: engine_step_def)
  have "noPlaceholderAdded (contextCalls (st\<lparr>prop_images := imgs\<rparr>))
          (contextCalls (rerenderEffects d (st\<lparr>prop_images := imgs\<rparr>)))"
    using r by (intro clean_rerenderEffects) simp
  moreover have "contextCalls (st\<lparr>prop_images := imgs\<rparr>) = contextCalls st"
    by (simp add: contextCalls_def)
  ultimately show ?thesis
    by (simp add: ImagesChanged engine_step_def)
next
  case (DurationChanged dur)
  then show ?thesis
    by (simp add: engine_step_def contextCalls_def noPlaceholderAdded_refl)
next
  case (WindowResize d)
  with run have r: "isAnimatingRef st"
    by (simp add: engine_step_def)
  then have "idleDraw (resize d st) = resize d st"
    by (simp add: idleDraw_running)
  with WindowResize show ?thesis
    by (simp add: engine_step_def handleResize_def clean_resize)
next
  case Unmount
  then show ?thesis
    by (simp add: engine_step_def noPlaceholderAdded_refl)
qed

text \<open>A change of the images during a run.\<close>

lemma resize_ensureContext_ctx:
  assumes "ctxRef st' = ctxRef st"
  shows "ctxRef (resize d (ensureContext d st')) = ctxRef (resize d (ensureContext d st))"
  using assms
  by (simp add: resize_def ensureContext_def contextCalls_def Let_def
        split: option.splits prod.splits)

lemma images_changed_during_run:
  assumes inv: "scheduler_inv st" and run: "isAnimatingRef st"
  shows "isAnimatingRef (engine_step st (ImagesChanged imgs d))"
    and "rafQueue (engine_step st (ImagesChanged imgs d)) = []"
    and "ctxRef (engine_step st (ImagesChanged imgs d)) = ctxRef (resize d (ensureContext d st))"
proof -
  from run show "isAnimatingRef (engine_step st (ImagesChanged imgs d))"
    by (simp add: engine_step_def)
  from inv have "scheduler_inv (st\<lparr>prop_images := imgs\<rparr>)"
    by (simp add: scheduler_inv_def)
  then have "rafQueue (cancelAnimation (st\<lparr>prop_images := imgs\<rparr>)) = []"
    by (rule inv_cancelAnimation_queue)
  then show "rafQueue (engine_step st (ImagesChanged imgs d)) = []"
    by (simp add: engine_step_def rerenderEffects_def)
  have "idleDraw (resize d (ensureContext d (cancelAnimation (st\<lparr>prop_images := imgs\<rparr>))))
          = resize d (ensureContext d (cancelAnimation (st\<lparr>prop_images := imgs\<rparr>)))"
    using run by (intro idleDraw_running) simp
  moreover have "ctxRef (resize d (ensureContext d (cancelAnimation (st\<lparr>prop_images := imgs\<rparr>))))
          = ctxRef (resize d (ensureContext d st))"
    by (rule resize_ensureContext_ctx) simp
  ultimately show "ctxRef (engine_step st (ImagesChanged imgs d)) = ctxRef (resize d (ensureContext d st))"
    by (simp add: engine_step_def rerenderEffects_def mountEffects_def)
qed

text \<open>
  Claim C10. For every progress the transition-frame draw returns the state it was
  given, the context receiving no call at all (no clear, no placeholder fill), when the
  image of the transition's from-slot or of its to-slot is absent. And no run shows a
  placeholder: in every state \<open>s\<close> the component reaches, a step that is taken during
  a run, or that starts one, leaves the earlier calls of the context in place and adds
  no placeholder fill. When the images change during a run, the run stays flagged as
  running, its requested frame is cancelled, and the context receives the calls of
  \<^verbatim>\<open>resize\<close> only. Every frame that is requested belongs to a render that saw the
  current images, with both images of the transition present.
\<close>

theorem absent_image_frame_noop_and_no_placeholder_during_run:
  assumes "s = engine_run evs" and "s' = engine_step s ev"
  shows "(arrayGet (cl_images cl) (tr_from (transitionRef st)) = None
            \<or> arrayGet (cl_images cl) (tr_to (transitionRef st)) = None
          \<longrightarrow> drawFrame cl progress st = st) \<and>
         (isAnimatingRef s \<or> isAnimatingRef s'
          \<longrightarrow> noPlaceholderAdded (contextCalls s) (contextCalls s')) \<and>
         (isAnimatingRef s
          \<longrightarrow> isAnimatingRef (engine_step s (ImagesChanged imgs d)) \<and>
              rafQueue (engine_step s (ImagesChanged imgs d)) = [] \<and>
              ctxRef (engine_step s (ImagesChanged imgs d))
                = ctxRef (resize d (ensureContext d s))) \<and>
         (map_of (rafQueue s) h = Some cl'
          \<longrightarrow> cl_images cl' = prop_images s \<and>
              arrayGet (cl_images cl') (tr_from (transitionRef s)) \<noteq> None \<and>
              arrayGet (cl_images cl') (tr_to (transitionRef s)) \<noteq> None)"
proof -
  have inv: "scheduler_inv s" and fr: "frames_inv s"
    unfolding assms(1) by (rule inv_engine_run, rule frames_inv_engine_run)
  have early: "arrayGet (cl_images cl) (tr_from (transitionRef st)) = None
            \<or> arrayGet (cl_images cl) (tr_to (transitionRef st)) = None
          \<longrightarrow> drawFrame cl progress st = st"
    by (auto simp add: drawFrame_def Let_def split: option.splits)
  have clean: "isAnimatingRef s \<or> isAnimatingRef s'
          \<longrightarrow> noPlaceholderAdded (contextCalls s) (contextCalls s')"
    unfolding assms(2) using clean_engine_step [OF inv fr] by blast
  have replaced: "isAnimatingRef s
          \<longrightarrow> isAnimatingRef (engine_step s (ImagesChanged imgs d)) \<and>
              rafQueue (engine_step s (ImagesChanged imgs d)) = [] \<and>
              ctxRef (engine_step s (ImagesChanged imgs d))
                = ctxRef (resize d (ensureContext d s))"
    using images_changed_during_run [OF inv] by blast
  have queued: "map_of (rafQueue s) h = Some cl'
          \<longrightarrow> cl_images cl' = prop_images s \<and>
              arrayGet (cl_images cl') (tr_from (transitionRef s)) \<noteq> None \<and>
              arrayGet (cl_images cl') (tr_to (transitionRef s)) \<noteq> None"
    using queued_closure [OF inv fr] by blast
  from early clean replaced queued show ?thesis
    by blast
qed

lemma replaced_state:
  "engine_run replacedEvents
     = engine_step (engine_run runningEvents) (ImagesChanged [None, Some secondImage] stagePage)"
  "prop_images (engine_run replacedEvents) = [None, Some secondImage]"
  "transitionRef (engine_run replacedEvents) = \<lparr>tr_from = 0, tr_to = 1\<rparr>"
  "viewportRef (engine_run replacedEvents) = \<lparr>vp_width = 800, vp_height = 600, dpr = 2\<rparr>"
  "ctxRef (engine_run replacedEvents) \<noteq> None"
proof -
  show run: "engine_run replacedEvents
     = engine_step (engine_run runningEvents) (ImagesChanged [None, Some secondImage] stagePage)"
    by (simp add: replacedEvents_def engine_run_snoc)
  show "prop_images (engine_run replacedEvents) = [None, Some secondImage]"
    "transitionRef (engine_run replacedEvents) = \<lparr>tr_from = 0, tr_to = 1\<rparr>"
    by (simp_all add: run engine_step_def rerenderEffects_def running_state)
  have idle: "idleDraw (resize stagePage (ensureContext stagePage
                  (cancelAnimation (engine_run runningEvents
                     \<lparr>prop_images := [None, Some secondImage]\<rparr>))))
          = resize stagePage (ensureContext stagePage
                  (cancelAnimation (engine_run runningEvents
                     \<lparr>prop_images := [None, Some secondImage]\<rparr>)))"
    by (rule idleDraw_running) (simp add: running_state)
  have stage: "viewportRef (resize stagePage st) = \<lparr>vp_width = 800, vp_height = 600, dpr = 2\<rparr>"
    "ctxRef (resize stagePage st) \<noteq> None" for st
    by (simp_all add: resize_def stagePage_def Let_def)
  show "viewportRef (engine_run replacedEvents) = \<lparr>vp_width = 800, vp_height = 600, dpr = 2\<rparr>"
    "ctxRef (engine_run replacedEvents) \<noteq> None"
    by (simp_all add: run engine_step_def rerenderEffects_def mountEffects_def idle stage)
qed

text \<open>
  The first slot is replaced during the run of \<open>runningEvents\<close>. The frame requested
  under handle 2 has both images; the replacement cancels it and adds no placeholder
  fill; and in the render after the replacement the transition-frame draw, with a
  context and an 800 by 600 viewport, leaves the state alone because the from-slot is
  absent.
\<close>

theorem absent_image_frame_noop_and_no_placeholder_during_run_witness:
  "engine_run replacedEvents
     = engine_step (engine_run runningEvents) (ImagesChanged [None, Some secondImage] stagePage) \<and>
   isAnimatingRef (engine_run runningEvents) \<and>
   map_of (rafQueue (engine_run runningEvents)) 2 = Some firstRender \<and>
   arrayGet (cl_images firstRender) (tr_from (transitionRef (engine_run runningEvents))) \<noteq> None \<and>
   arrayGet (cl_images firstRender) (tr_to (transitionRef (engine_run runningEvents))) \<noteq> None \<and>
   isAnimatingRef (engine_run replacedEvents) \<and>
   rafQueue (engine_run replacedEvents) = [] \<and>
   ctxRef (engine_run replacedEvents)
     = ctxRef (resize stagePage (ensureContext stagePage (engine_run runningEvents))) \<and>
   noPlaceholderAdded (contextCalls (engine_run runningEvents))
     (contextCalls (engine_run replacedEvents)) \<and>
   viewportRef (engine_run replacedEvents) = \<lparr>vp_width = 800, vp_height = 600, dpr = 2\<rparr> \<and>
   ctxRef (engine_run replacedEvents) \<noteq> None \<and>
   arrayGet (cl_images (currentRender (engine_run replacedEvents)))
     (tr_from (transitionRef (engine_run replacedEvents))) = None \<and>
   drawFrame (currentRender (engine_run replacedEvents)) (1/2) (engine_run replacedEvents)
     = engine_run replacedEvents"
proof -
  note t = absent_image_frame_noop_and_no_placeholder_during_run
             [OF refl replaced_state(1),
              of "currentRender (engine_run replacedEvents)" "engine_run replacedEvents" "1/2"
                 "[None, Some secondImage]" stagePage 2 firstRender]
  have run: "isAnimatingRef (engine_run runningEvents)"
    by (rule running_state(2))
  have q: "map_of (rafQueue (engine_run runningEvents)) 2 = Some firstRender"
    by (simp add: running_state)
  have absent: "arrayGet (cl_images (currentRender (engine_run replacedEvents)))
     (tr_from (transitionRef (engine_run replacedEvents))) = None"
    by (simp add: currentRender_def replaced_state(2,3) arrayGet_def)
  from t absent
  have a: "drawFrame (currentRender (engine_run replacedEvents)) (1/2) (engine_run replacedEvents)
     = engine_run replacedEvents"
    by blast
  from t run
  have b: "noPlaceholderAdded (contextCalls (engine_run runningEvents))
     (contextCalls (engine_run replacedEvents))"
    by blast
  from t run
  have c: "isAnimatingRef (engine_step (engine_run runningEvents)
              (ImagesChanged [None, Some secondImage] stagePage))"
    "rafQueue (engine_step (engine_run runningEvents)
              (ImagesChanged [None, Some secondImage] stagePage)) = []"
    "ctxRef (engine_step (engine_run runningEvents)
              (ImagesChanged [None, Some secondImage] stagePage))
       = ctxRef (resize stagePage (ensureContext stagePage (engine_run runningEvents)))"
    by blast+
  from t q
  have d: "arrayGet (cl_images firstRender) (tr_from (transitionRef (engine_run runningEvents))) \<noteq> None"
    "arrayGet (cl_images firstRender) (tr_to (transitionRef (engine_run runningEvents))) \<noteq> None"
    by blast+
  from run q absent a b c [folded replaced_state(1)] d replaced_state(1,4,5) show ?thesis
    by (intro conjI)
qed

end
